theory Spec2Isabelle
  imports Complex_Main
begin

section \<open>Orders of the game-station server (server.js)\<close>

text \<open>
  The server keeps one Mongo collection of orders and one counter document. Each
  request handler looks an order up, changes the in-memory document and saves it. The
  handlers are embedded as functions from the store to a result and the new store.

  Conventions of the embedding.
  \<^item> A stored JavaScript \<open>Date\<close> is its time value, an \<open>int\<close> of milliseconds; a \<open>null\<close>
    or missing date is \<open>None\<close>. Every \<open>new Date()\<close> of a handler is a parameter of the
    model (\<open>now\<close>, \<open>doneAt\<close>), in the order the handler reads the clock. Create is modelled
    with the dates it builds from the request, which can be an \<open>Invalid Date\<close>
    (\<open>jsdate\<close>); in edit the \<open>startTime\<close> of the request is taken to be a valid date and
    the end time computed from it to be within the range of \<open>Date\<close>.
  \<^item> A JavaScript number is the rational it denotes. A division, a multiplication, and an
    addition or subtraction whose result can have more than 53 bits, rounds its exact
    result to the nearest double (\<open>fl\<close>). \<open>NaN\<close>, the infinities and subnormal numbers are
    outside the model; the difference of two stored dates is taken to stay below \<open>2^53\<close>
    in magnitude, where double arithmetic on integers is exact.
  \<^item> \<open>type\<close> and \<open>status\<close> are strings, as in the schema; the schema's \<open>enum\<close>
    validators run when a document is saved.
  \<^item> Sending a Telegram message does not change the store; only the chunked sender is
    modelled, as the list of texts handed to \<open>sendToTelegram\<close>.
\<close>

subsection \<open>Data model\<close>

text \<open>
  \<open>orderSchema\<close>, lines 61-73. \<open>oid\<close> is Mongo's \<open>_id\<close> in its hexadecimal form.
  \<open>prevStatus\<close> is not a path of the schema: a stored document has the field only when it
  was written past the schema (\<open>None\<close> otherwise), and what the delete and restore
  handlers assign to \<open>o.prevStatus\<close> is not saved.
\<close>

record order =
  oid :: string
  orderId :: int
  externalId :: string
  ps :: string
  otype :: string
  startTime :: int
  endTime :: "int option"
  summa :: rat
  status :: string
  createdAt :: int
  completedAt :: "int option"
  deletedAt :: "int option"
  prevStatus :: "string option"

text \<open>
  The database: the orders in their natural (insertion) order and the \<open>seq\<close> field of the
  counter document named \<open>orderId\<close> (0 while the document does not exist: the upsert
  with \<open>$inc\<close> then creates it at 1).
\<close>

record store =
  orders :: "order list"
  seq :: int

text \<open>
  What the handlers take from outside the file: the configured price, and two library
  functions applied to the identifier of a request.
  \<^item> \<open>objectIdOf s\<close> is \<open>None\<close> when \<open>mongoose.Types.ObjectId.isValid(s)\<close> is false, and
    otherwise the hexadecimal form of the ObjectId that \<open>findById(s)\<close> casts \<open>s\<close> to.
  \<^item> \<open>numberOf s\<close> is \<open>None\<close> when \<open>Number(s)\<close> is \<open>NaN\<close> (or infinite, which equals no
    stored \<open>orderId\<close>), and otherwise the value of \<open>Number(s)\<close>.
  \<open>PRICE_PER_HOUR\<close> is \<open>Number(process.env.PRICE_PER_HOUR) || 15000\<close>, hence never 0.
\<close>

record config =
  PRICE_PER_HOUR :: rat
  objectIdOf :: "string \<Rightarrow> string option"
  numberOf :: "string \<Rightarrow> rat option"

datatype error = BadRequest | NotFound | ServerError

subsection \<open>JavaScript numbers\<close>

text \<open>
  A double has a significand of 53 bits. \<open>roundEven\<close> rounds to the nearest integer, a tie
  to the even one; \<open>expo x\<close> is the exponent \<open>e\<close> with \<open>2^e \<le> |x| < 2^(e+1)\<close>; \<open>fl x\<close> is
  the multiple of \<open>2^(e-52)\<close> nearest to \<open>x\<close>.
\<close>

definition roundEven :: "rat \<Rightarrow> int" where
  "roundEven x =
     (let f = floor x; r = x - rat_of_int f
      in if r < 1 / 2 then f else if 1 / 2 < r then f + 1 else if even f then f else f + 1)"

function expoUp :: "rat \<Rightarrow> int" where
  "expoUp x = (if x < 2 then 0 else expoUp (x / 2) + 1)"
  by pat_completeness auto
termination
proof (relation "measure (\<lambda>x. nat (floor x))")
  show "wf (measure (\<lambda>x::rat. nat (floor x)))" by simp
next
  fix x :: rat
  assume "\<not> x < 2"
  then have "2 \<le> x" by simp
  then have "floor (x / 2) < floor x"
    by (simp add: floor_less_iff) linarith
  moreover have "0 < floor x"
    using \<open>2 \<le> x\<close> by (simp add: floor_less_iff)
  ultimately show "(x / 2, x) \<in> measure (\<lambda>x. nat (floor x))"
    by simp
qed

definition expo :: "rat \<Rightarrow> int" where
  "expo x =
     (if 1 \<le> \<bar>x\<bar> then expoUp \<bar>x\<bar>
      else let k = expoUp (1 / \<bar>x\<bar>) in if 2 powi k = 1 / \<bar>x\<bar> then - k else - k - 1)"

definition fl :: "rat \<Rightarrow> rat" where
  "fl x =
     (if x = 0 then 0
      else rat_of_int (roundEven (x / 2 powi (expo x - 52))) * 2 powi (expo x - 52))"

text \<open>The operators \<open>/\<close>, \<open>*\<close>, \<open>+\<close> and \<open>-\<close> on numbers.\<close>

definition jsDiv :: "rat \<Rightarrow> rat \<Rightarrow> rat" where
  "jsDiv a b = fl (a / b)"

definition jsMul :: "rat \<Rightarrow> rat \<Rightarrow> rat" where
  "jsMul a b = fl (a * b)"

definition jsAdd :: "rat \<Rightarrow> rat \<Rightarrow> rat" where
  "jsAdd a b = fl (a + b)"

definition jsSub :: "rat \<Rightarrow> rat \<Rightarrow> rat" where
  "jsSub a b = fl (a - b)"

subsection \<open>JavaScript dates\<close>

text \<open>
  The time value of a \<open>Date\<close> object: an instant in milliseconds, or \<open>None\<close> for an
  \<open>Invalid Date\<close>. \<open>new Date(v)\<close> for a number \<open>v\<close> is an \<open>Invalid Date\<close> when \<open>v\<close> is more
  than 8640000000000000 milliseconds from the epoch, and otherwise the instant \<open>v\<close> with
  its fraction cut off. The schema does not cast an \<open>Invalid Date\<close> to a \<open>Date\<close> path: saving
  a document that holds one fails.
\<close>

type_synonym jsdate = "int option"

definition MAX_TIME :: int where
  "MAX_TIME = 8640000000000000"

definition newDate :: "rat \<Rightarrow> jsdate" where
  "newDate v =
     (if \<bar>v\<bar> \<le> rat_of_int MAX_TIME then Some (if 0 \<le> v then floor v else ceiling v)
      else None)"

subsection \<open>Billing arithmetic\<close>

text \<open>
  Lines 197-198 (create) and 253-254 (edit):
  \<^verbatim>\<open>hours = summa / PRICE_PER_HOUR; ms = Math.floor(hours * 3600 * 1000)\<close>.
\<close>

definition cashMs :: "rat \<Rightarrow> rat \<Rightarrow> int" where
  "cashMs p amount = floor (jsMul (jsMul (jsDiv amount p) 3600) 1000)"

text \<open>
  Lines 287-289 (complete, vip), 298-299 (complete, cash) and 439-441 (daily report):
  \<^verbatim>\<open>oynaganSumma = Math.ceil(diffMs / (3600 * 1000) * PRICE_PER_HOUR);
  oynaganSumma = Math.ceil(oynaganSumma / 1000) * 1000\<close>.
\<close>

definition oynaganSumma :: "rat \<Rightarrow> int \<Rightarrow> rat" where
  "oynaganSumma p diffMs =
     jsMul (rat_of_int (ceiling
              (jsDiv (rat_of_int (ceiling (jsMul (jsDiv (rat_of_int diffMs) (3600 * 1000)) p)))
                 1000)))
       1000"

text \<open>\<^verbatim>\<open>Math.floor(ms / 60000)\<close>, lines 286, 297 and 301.\<close>

definition minutesOf :: "int \<Rightarrow> int" where
  "minutesOf ms = floor (jsDiv (rat_of_int ms) 60000)"

subsection \<open>Lookup\<close>

text \<open>\<open>findOrderByAnyId\<close>, lines 86-103. \<open>findOne\<close> returns the first match.\<close>

definition findById :: "string \<Rightarrow> store \<Rightarrow> order option" where
  "findById k st = find (\<lambda>x. oid x = k) (orders st)"

definition findOrderByAnyId :: "config \<Rightarrow> string \<Rightarrow> store \<Rightarrow> order option" where
  "findOrderByAnyId cfg ident st =
     (case (case objectIdOf cfg ident of
              None \<Rightarrow> None
            | Some k \<Rightarrow> findById k st) of
        Some byId \<Rightarrow> Some byId
      | None \<Rightarrow>
          (case (case numberOf cfg ident of
                   None \<Rightarrow> None
                 | Some n \<Rightarrow> find (\<lambda>x. rat_of_int (orderId x) = n) (orders st)) of
             Some byOrderId \<Rightarrow> Some byOrderId
           | None \<Rightarrow> find (\<lambda>x. externalId x = ident) (orders st)))"

text \<open>
  The lookup as the specification words it: three independent strategies, tried in the
  order primary key, numeric \<open>orderId\<close>, \<open>externalId\<close>; the first that matches wins.
\<close>

definition byPrimaryKey :: "config \<Rightarrow> string \<Rightarrow> store \<Rightarrow> order option" where
  "byPrimaryKey cfg ident st =
     find (\<lambda>x. objectIdOf cfg ident = Some (oid x)) (orders st)"

definition byOrderNumber :: "config \<Rightarrow> string \<Rightarrow> store \<Rightarrow> order option" where
  "byOrderNumber cfg ident st =
     find (\<lambda>x. numberOf cfg ident = Some (rat_of_int (orderId x))) (orders st)"

definition byExternalId :: "string \<Rightarrow> store \<Rightarrow> order option" where
  "byExternalId ident st = find (\<lambda>x. externalId x = ident) (orders st)"

fun firstMatch :: "'a option list \<Rightarrow> 'a option" where
  "firstMatch [] = None"
| "firstMatch (None # rest) = firstMatch rest"
| "firstMatch (Some x # rest) = Some x"

definition lookupSpec :: "config \<Rightarrow> string \<Rightarrow> store \<Rightarrow> order option" where
  "lookupSpec cfg ident st =
     firstMatch [byPrimaryKey cfg ident st, byOrderNumber cfg ident st, byExternalId ident st]"

subsection \<open>Saving a document\<close>

text \<open>
  \<open>o.save()\<close> on a document that was read from the collection writes it back over the
  stored document with the same \<open>_id\<close>.
\<close>

definition saveOrder :: "order \<Rightarrow> store \<Rightarrow> store" where
  "saveOrder d st = st\<lparr>orders := map (\<lambda>x. if oid x = oid d then d else x) (orders st)\<rparr>"

text \<open>No handler changes \<open>_id\<close>, \<open>orderId\<close> or \<open>externalId\<close> of a stored document.\<close>

definition sameKeys :: "order \<Rightarrow> order \<Rightarrow> bool" where
  "sameKeys d' d = (oid d' = oid d \<and> orderId d' = orderId d \<and> externalId d' = externalId d)"

text \<open>The \<open>enum\<close> validators of the schema (lines 65 and 69).\<close>

definition typeEnum :: "string \<Rightarrow> bool" where
  "typeEnum t = (t = ''cash'' \<or> t = ''vip'')"

definition statusEnum :: "string \<Rightarrow> bool" where
  "statusEnum t = (t = ''process'' \<or> t = ''completed'' \<or> t = ''trash'')"

text \<open>A string field of a request body is truthy when it is present and not empty.\<close>

definition truthy :: "string option \<Rightarrow> bool" where
  "truthy v = (case v of None \<Rightarrow> False | Some t \<Rightarrow> t \<noteq> [])"

subsection \<open>Create: \<open>api.post("/order")\<close>, lines 184-213\<close>

text \<open>
  The body of the request. A field is \<open>None\<close> when it is \<open>undefined\<close>. \<open>c_amount\<close> is the
  value of \<open>Number(amount)\<close>; \<open>c_startTime\<close> is \<open>None\<close> when the field is falsy and
  otherwise the date \<open>new Date(startTime)\<close>, which is \<open>Some None\<close> when the field does not
  parse to a date.
\<close>

record createReq =
  c_ps :: "string option"
  c_type :: "string option"
  c_amount :: "rat option"
  c_startTime :: "jsdate option"

text \<open>
  \<open>newId\<close> and \<open>newExt\<close> are the \<open>_id\<close> and the \<open>shortid\<close> generated for the new document,
  \<open>created\<close> the reading of \<open>Date.now\<close> for \<open>createdAt\<close>. \<open>startDate\<close> is the \<open>start\<close> of
  line 191, with \<open>now\<close> the clock. Line 199: the time value of an invalid \<open>start\<close> is
  \<open>NaN\<close>, and so is its sum with \<open>ms\<close>. \<open>o.save()\<close> fails, and the
  handler answers 500, when \<open>type\<close> is outside its \<open>enum\<close> or when \<open>startTime\<close> or
  \<open>endTime\<close> is an \<open>Invalid Date\<close>; the casts and validators run before the \<open>pre("save")\<close>
  hook that draws the next \<open>orderId\<close> from the counter.
\<close>

definition startDate :: "int \<Rightarrow> createReq \<Rightarrow> jsdate" where
  "startDate now req = (case c_startTime req of None \<Rightarrow> Some now | Some t \<Rightarrow> t)"

definition createOrder ::
  "config \<Rightarrow> string \<Rightarrow> string \<Rightarrow> int \<Rightarrow> int \<Rightarrow> createReq \<Rightarrow> store \<Rightarrow> (error + order) \<times> store" where
  "createOrder cfg newId newExt now created req st =
     (let ps0 = (case c_ps req of None \<Rightarrow> ''PS1'' | Some v \<Rightarrow> v);
          type0 = (case c_type req of None \<Rightarrow> ''vip'' | Some v \<Rightarrow> v);
          amount = (case c_amount req of None \<Rightarrow> 0 | Some a \<Rightarrow> a)
      in if type0 = ''cash'' \<and> amount \<le> 0 then (Inl BadRequest, st)
         else
           let start = startDate now req;
               end0 = (if type0 = ''cash''
                       then Some (case start of
                                    None \<Rightarrow> None
                                  | Some s \<Rightarrow>
                                      newDate (jsAdd (rat_of_int s)
                                        (rat_of_int (cashMs (PRICE_PER_HOUR cfg) amount))))
                       else None)
           in if \<not> typeEnum type0 \<or> start = None \<or> end0 = Some None
              then (Inl ServerError, st)
              else
                let d = \<lparr>oid = newId, orderId = seq st + 1, externalId = newExt, ps = ps0,
                         otype = type0, startTime = the start,
                         endTime = (case end0 of None \<Rightarrow> None | Some e \<Rightarrow> e), summa = amount,
                         status = ''process'', createdAt = created, completedAt = None,
                         deletedAt = None, prevStatus = None\<rparr>
                in (Inr d, \<lparr>orders = orders st @ [d], seq = seq st + 1\<rparr>))"

subsection \<open>Edit: \<open>api.put("/order/:id")\<close>, lines 227-268\<close>

record editReq =
  e_ps :: "string option"
  e_type :: "string option"
  e_amount :: "rat option"
  e_startTime :: "int option"
  e_status :: "string option"

text \<open>Lines 234-236: the fields applied before the amount is looked at.\<close>

definition applyFields :: "editReq \<Rightarrow> order \<Rightarrow> order" where
  "applyFields req d =
     (let d1 = (if truthy (e_ps req) then d\<lparr>ps := the (e_ps req)\<rparr> else d);
          d2 = (if truthy (e_type req) then d1\<lparr>otype := the (e_type req)\<rparr> else d1)
      in case e_startTime req of None \<Rightarrow> d2 | Some t \<Rightarrow> d2\<lparr>startTime := t\<rparr>)"

text \<open>The type the amount checks of lines 242 and 247 see: line 235 has been applied.\<close>

definition typeAfter :: "editReq \<Rightarrow> order \<Rightarrow> string" where
  "typeAfter req d = (if truthy (e_type req) then the (e_type req) else otype d)"

text \<open>
  Lines 261-263: the status is force-set, then the document is saved; the save fails when
  an assigned \<open>type\<close> or \<open>status\<close> is outside its \<open>enum\<close>.
\<close>

definition finishEdit :: "editReq \<Rightarrow> order \<Rightarrow> store \<Rightarrow> (error + order) \<times> store" where
  "finishEdit req d st =
     (let d1 = (if truthy (e_status req) then d\<lparr>status := the (e_status req)\<rparr> else d)
      in if (truthy (e_type req) \<longrightarrow> typeEnum (otype d1)) \<and>
            (truthy (e_status req) \<longrightarrow> statusEnum (status d1))
         then (Inr d1, saveOrder d1 st)
         else (Inl ServerError, st))"

definition editOrder :: "config \<Rightarrow> string \<Rightarrow> editReq \<Rightarrow> store \<Rightarrow> (error + order) \<times> store" where
  "editOrder cfg ident req st =
     (case findOrderByAnyId cfg ident st of
        None \<Rightarrow> (Inl NotFound, st)
      | Some d0 \<Rightarrow>
          (let d = applyFields req d0
           in case e_amount req of
                None \<Rightarrow> finishEdit req d st
              | Some newAmount \<Rightarrow>
                  if otype d = ''vip'' \<and> newAmount > summa d then (Inl BadRequest, st)
                  else if otype d = ''cash'' \<and> newAmount \<le> 0 then (Inl BadRequest, st)
                  else
                    (let d1 = d\<lparr>summa := newAmount\<rparr>;
                         d2 = (if otype d1 = ''cash''
                               then d1\<lparr>endTime :=
                                      Some (startTime d1 + cashMs (PRICE_PER_HOUR cfg) (summa d1))\<rparr>
                               else d1\<lparr>endTime := None\<rparr>)
                     in finishEdit req d2 st)))"

subsection \<open>Complete: \<open>api.post("/complete/:id")\<close>, lines 271-323\<close>

text \<open>The JSON of the answer: the order and the four computed numbers.\<close>

record completion =
  r_order :: order
  r_qaytish :: rat
  r_oynaganSumma :: rat
  r_oynaganMinut :: int
  r_qolganMinut :: int

text \<open>
  Lines 277-306. \<open>now\<close> is the \<open>new Date()\<close> of the branch taken (line 284 or 293).
\<close>

definition settle :: "config \<Rightarrow> int \<Rightarrow> order \<Rightarrow> completion" where
  "settle cfg now d =
     (if otype d = ''vip'' then
        (let diffMs = now - startTime d;
             s = oynaganSumma (PRICE_PER_HOUR cfg) diffMs
         in \<lparr>r_order = d\<lparr>summa := s, endTime := Some now\<rparr>, r_qaytish = 0,
              r_oynaganSumma = s, r_oynaganMinut = minutesOf diffMs, r_qolganMinut = 0\<rparr>)
      else if otype d = ''cash'' then
        (let oynaganMs = now - startTime d;
             s = oynaganSumma (PRICE_PER_HOUR cfg) oynaganMs
         in case endTime d of
              Some end0 \<Rightarrow>
                if now < end0
                then \<lparr>r_order = d\<lparr>summa := s, endTime := Some now\<rparr>,
                       r_qaytish = jsSub (summa d) s, r_oynaganSumma = s,
                       r_oynaganMinut = minutesOf oynaganMs,
                       r_qolganMinut = minutesOf (end0 - now)\<rparr>
                else \<lparr>r_order = d, r_qaytish = 0, r_oynaganSumma = s,
                       r_oynaganMinut = minutesOf oynaganMs, r_qolganMinut = 0\<rparr>
            | None \<Rightarrow>
                \<lparr>r_order = d, r_qaytish = 0, r_oynaganSumma = s,
                  r_oynaganMinut = minutesOf oynaganMs, r_qolganMinut = 0\<rparr>)
      else \<lparr>r_order = d, r_qaytish = 0, r_oynaganSumma = 0, r_oynaganMinut = 0,
             r_qolganMinut = 0\<rparr>)"

text \<open>Lines 307-309 and 318; \<open>doneAt\<close> is the \<open>new Date()\<close> of line 308.\<close>

definition completeOrder ::
  "config \<Rightarrow> int \<Rightarrow> int \<Rightarrow> string \<Rightarrow> store \<Rightarrow> (error + completion) \<times> store" where
  "completeOrder cfg now doneAt ident st =
     (case findOrderByAnyId cfg ident st of
        None \<Rightarrow> (Inl NotFound, st)
      | Some d0 \<Rightarrow>
          (let r = settle cfg now d0;
               d = (r_order r)\<lparr>status := ''completed'', completedAt := Some doneAt\<rparr>
           in (Inr (r\<lparr>r_order := d\<rparr>), saveOrder d st)))"

subsection \<open>The daily report: \<open>api.get("/daily-report")\<close>, lines 435-445\<close>

text \<open>
  The report shows an open vip order with the amount accrued so far, without saving it;
  the flag is the \<open>_calculated\<close> mark of the overlaid copy.
\<close>

definition reportOverlay :: "config \<Rightarrow> int \<Rightarrow> order \<Rightarrow> order \<times> bool" where
  "reportOverlay cfg now d =
     (if status d = ''process'' \<and> otype d = ''vip''
      then (d\<lparr>summa := oynaganSumma (PRICE_PER_HOUR cfg) (now - startTime d)\<rparr>, True)
      else (d, False))"

subsection \<open>Restore: \<open>api.post("/restore/:id")\<close>, lines 389-408\<close>


subsection \<open>The sweeper: \<open>setInterval\<close>, lines 554-572\<close>

text \<open>
  The query \<open>{status: "process", type: "cash", endTime: {$lte: now}}\<close>; a \<open>null\<close>
  \<open>endTime\<close> does not match \<open>$lte\<close>.
\<close>

definition expired :: "int \<Rightarrow> order \<Rightarrow> bool" where
  "expired now d =
     (status d = ''process'' \<and> otype d = ''cash'' \<and>
      (case endTime d of None \<Rightarrow> False | Some e \<Rightarrow> e \<le> now))"

definition autoComplete :: "int \<Rightarrow> order \<Rightarrow> order" where
  "autoComplete now d = d\<lparr>status := ''completed'', completedAt := Some now\<rparr>"

definition sweep :: "int \<Rightarrow> store \<Rightarrow> store" where
  "sweep now st =
     foldl (\<lambda>s d. saveOrder (autoComplete now d) s) st (filter (expired now) (orders st))"

subsection \<open>The chunked sender: \<open>sendToTelegramChunks\<close>, lines 133-144\<close>

text \<open>
  A JavaScript string is the list of its UTF-16 code units, which is what \<open>.length\<close>
  counts. The result is the list of texts passed to \<open>sendToTelegram\<close>, in order.
\<close>

type_synonym jsstring = "nat list"

definition MAX_chars :: nat where
  "MAX_chars = 4000"

text \<open>The white space and line terminators that \<open>trim()\<close> removes.\<close>

definition jsWhite :: "nat \<Rightarrow> bool" where
  "jsWhite c = (c \<in> {9, 10, 11, 12, 13, 32, 160, 5760, 8232, 8233, 8239, 8287, 12288, 65279}
                \<or> (8192 \<le> c \<and> c \<le> 8202))"

text \<open>\<open>chunk.trim()\<close> is truthy: some code unit of the chunk is not white space.\<close>

definition trimTruthy :: "jsstring \<Rightarrow> bool" where
  "trimTruthy chunk = list_ex (\<lambda>c. \<not> jsWhite c) chunk"

text \<open>Line 135: \<^verbatim>\<open><b>title</b>\n\<close> for a non-empty title, else the empty string.\<close>

definition header :: "jsstring \<Rightarrow> jsstring" where
  "header title = (if title \<noteq> [] then [60, 98, 62] @ title @ [60, 47, 98, 62, 10] else [])"

fun chunkLoop :: "jsstring list \<Rightarrow> jsstring \<Rightarrow> jsstring list" where
  "chunkLoop [] chunk = (if trimTruthy chunk then [chunk] else [])"
| "chunkLoop (line # rest) chunk =
     (if length (chunk @ line @ [10]) > MAX_chars
      then chunk # chunkLoop rest (line @ [10])
      else chunkLoop rest (chunk @ line @ [10]))"

definition sendToTelegramChunks :: "jsstring list \<Rightarrow> jsstring \<Rightarrow> jsstring list" where
  "sendToTelegramChunks lines title = chunkLoop lines (header title)"

text \<open>The list handed to the sender: each line with its newline, in order.\<close>

definition terminated :: "jsstring list \<Rightarrow> jsstring" where
  "terminated lines = concat (map (\<lambda>line. line @ [10]) lines)"

text \<open>
  The split as the specification words it. The lines are taken in order, the chunks kept
  in a list that starts as the header alone. A line with its newline goes to the end of
  the last chunk, unless that chunk would then be longer than the budget: then the line
  starts a new chunk.
\<close>

definition appendLine :: "jsstring list \<Rightarrow> jsstring \<Rightarrow> jsstring list" where
  "appendLine chunks line =
     (if MAX_chars < length (last chunks) + length line + 1
      then chunks @ [line @ [10]]
      else butlast chunks @ [last chunks @ line @ [10]])"

definition chunksSpec :: "jsstring list \<Rightarrow> jsstring \<Rightarrow> jsstring list" where
  "chunksSpec lines title = foldl appendLine [header title] lines"

subsection \<open>A small database for the examples\<close>

text \<open>
  In \<open>exampleConfig\<close> no identifier used below is a valid ObjectId, and \<open>"7"\<close>, \<open>"8"\<close>
  and \<open>"9"\<close> are the only ones that \<open>Number\<close> reads as a number.
\<close>

definition exampleConfig :: config where
  "exampleConfig =
     \<lparr>PRICE_PER_HOUR = 15000, objectIdOf = (\<lambda>s. None),
      numberOf = (\<lambda>s. if s = ''7'' then Some 7 else if s = ''8'' then Some 8
                      else if s = ''9'' then Some 9 else None)\<rparr>"

text \<open>A cash order of 30000, two hours from instant 0.\<close>

definition exampleOrder :: order where
  "exampleOrder =
     \<lparr>oid = ''66f1a0c2e4b0a1b2c3d4e5f6'', orderId = 7, externalId = ''Xk3_9pQ'', ps = ''PS1'',
      otype = ''cash'', startTime = 0, endTime = Some 7200000, summa = 30000,
      status = ''process'', createdAt = 0, completedAt = None, deletedAt = None,
      prevStatus = None\<rparr>"

text \<open>An open vip order whose \<open>externalId\<close> reads as the number of \<open>exampleOrder\<close>.\<close>

definition lookalikeOrder :: order where
  "lookalikeOrder =
     \<lparr>oid = ''66f1a0c2e4b0a1b2c3d4e5f7'', orderId = 8, externalId = ''7'', ps = ''PS3'',
      otype = ''vip'', startTime = 0, endTime = None, summa = 20000,
      status = ''process'', createdAt = 0, completedAt = None, deletedAt = None,
      prevStatus = None\<rparr>"

text \<open>
  An order in the trash whose stored document carries a \<open>prevStatus\<close> field, written past
  the schema.
\<close>

definition trashedOrder :: order where
  "trashedOrder =
     \<lparr>oid = ''66f1a0c2e4b0a1b2c3d4e5f9'', orderId = 9, externalId = ''b7_Twz'', ps = ''PS2'',
      otype = ''cash'', startTime = 0, endTime = Some 3600000, summa = 15000,
      status = ''trash'', createdAt = 0, completedAt = None, deletedAt = Some 900000,
      prevStatus = Some ''process''\<rparr>"

definition exampleStore :: store where
  "exampleStore = \<lparr>orders = [lookalikeOrder, exampleOrder, trashedOrder], seq = 9\<rparr>"

text \<open>A create request of type cash for a given amount.\<close>

definition cashRequest :: "rat \<Rightarrow> createReq" where
  "cashRequest a =
     \<lparr>c_ps = Some ''PS2'', c_type = Some ''cash'', c_amount = Some a,
      c_startTime = Some (Some 1000)\<rparr>"

text \<open>Edit requests for the examples: every field but the status is supplied.\<close>

definition editRequest :: "string \<Rightarrow> rat \<Rightarrow> editReq" where
  "editRequest t a =
     \<lparr>e_ps = Some ''PS9'', e_type = Some t, e_amount = Some a, e_startTime = Some 60000,
      e_status = None\<rparr>"


text \<open>Completing the open vip order of the example store after one hour, then again after two.\<close>

definition firstComplete :: "(error + completion) \<times> store" where
  "firstComplete = completeOrder exampleConfig 3600000 3600000 ''8'' exampleStore"

definition secondComplete :: "(error + completion) \<times> store" where
  "secondComplete = completeOrder exampleConfig 7200000 7200000 ''8'' (snd firstComplete)"

section \<open>Properties\<close>

subsection \<open>Rounding to a double\<close>

declare expoUp.simps [simp del]

lemma expoUp_bounds:
  "1 \<le> x \<Longrightarrow> 0 \<le> expoUp x \<and> 2 powi expoUp x \<le> x \<and> x < 2 powi (expoUp x + 1)"
proof (induction x rule: expoUp.induct)
  case (1 x)
  show ?case
  proof (cases "x < 2")
    case True
    then have "expoUp x = 0" by (simp add: expoUp.simps [of x])
    with True "1.prems" show ?thesis by simp
  next
    case False
    then have h: "1 \<le> x / 2" by simp
    have e: "expoUp x = expoUp (x / 2) + 1"
      using False by (simp add: expoUp.simps [of x])
    from "1.IH" [OF False h]
    have a: "0 \<le> expoUp (x / 2)" and b: "2 powi expoUp (x / 2) \<le> x / 2"
      and c: "x / 2 < 2 powi (expoUp (x / 2) + 1)"
      by simp_all
    have p: "(2::rat) powi (k + 1) = 2 powi k * 2" for k
      by (simp add: power_int_add)
    from a b c show ?thesis
      unfolding e p by simp
  qed
qed

lemma expo_bounds:
  assumes "x \<noteq> 0"
  shows "2 powi expo x \<le> \<bar>x\<bar> \<and> \<bar>x\<bar> < 2 powi (expo x + 1)"
proof (cases "1 \<le> \<bar>x\<bar>")
  case True
  with expoUp_bounds [OF True] show ?thesis by (simp add: expo_def)
next
  case False
  define y where "y = 1 / \<bar>x\<bar>"
  define k where "k = expoUp y"
  have x: "0 < \<bar>x\<bar>" "\<bar>x\<bar> = 1 / y" and y: "0 < y" "1 \<le> y"
    using assms False by (simp_all add: y_def)
  from expoUp_bounds [OF y(2)]
  have lo: "2 powi k \<le> y" and hi: "y < 2 powi (k + 1)"
    by (simp_all add: k_def)
  have pk: "(0::rat) < 2 powi k" and pk1: "(0::rat) < 2 powi (k + 1)"
    by simp_all
  have m1: "(2::rat) powi (- k) = 1 / 2 powi k"
    by (simp add: power_int_minus field_simps)
  have "(2::rat) powi (- (k + 1)) = 1 / 2 powi (k + 1)"
    by (simp only: power_int_minus inverse_eq_divide)
  moreover have "- k - 1 = - (k + 1)" by simp
  ultimately have m2: "(2::rat) powi (- k - 1) = 1 / 2 powi (k + 1)"
    by (simp only:)
  have up: "1 / y \<le> 1 / 2 powi k"
    using lo pk by (simp add: frac_le)
  have dn: "1 / 2 powi (k + 1) < 1 / y"
    using hi y(1) by (simp add: frac_less2)
  show ?thesis
  proof (cases "2 powi k = y")
    case True
    then have e: "expo x = - k"
      using False by (simp add: expo_def y_def k_def)
    have "(2::rat) powi (- k) < 2 powi (- k + 1)"
      by (rule power_int_strict_increasing) simp_all
    then show ?thesis
      unfolding e x(2) using True m1 by simp
  next
    case ne: False
    then have e: "expo x = - k - 1"
      using False by (simp add: expo_def y_def k_def Let_def)
    from ne lo have "2 powi k < y" by simp
    then have "1 / y < 1 / 2 powi k"
      using pk by (simp add: frac_less2)
    then show ?thesis
      unfolding e x(2) using dn m1 m2 by simp
  qed
qed

lemma expo_unique:
  assumes "2 powi e \<le> \<bar>x\<bar>" and "\<bar>x\<bar> < 2 powi (e + 1)"
  shows "expo x = e"
proof -
  have "(0::rat) < 2 powi e" by simp
  then have "0 < \<bar>x\<bar>" using assms(1) by (rule less_le_trans)
  then have nz: "x \<noteq> 0" by simp
  from expo_bounds [OF nz]
  have lo: "2 powi expo x \<le> \<bar>x\<bar>" and hi: "\<bar>x\<bar> < 2 powi (expo x + 1)"
    by simp_all
  have "\<not> expo x < e"
  proof
    assume "expo x < e"
    then have "(2::rat) powi (expo x + 1) \<le> 2 powi e"
      by (intro power_int_increasing) simp_all
    with hi assms(1) show False by simp
  qed
  moreover have "\<not> e < expo x"
  proof
    assume "e < expo x"
    then have "(2::rat) powi (e + 1) \<le> 2 powi expo x"
      by (intro power_int_increasing) simp_all
    with lo assms(2) show False by simp
  qed
  ultimately show ?thesis by simp
qed

lemma roundEven_error: "\<bar>rat_of_int (roundEven y) - y\<bar> \<le> 1 / 2"
proof -
  have "rat_of_int (floor y) \<le> y" and "y < rat_of_int (floor y) + 1"
    by linarith+
  then show ?thesis
    by (auto simp: roundEven_def Let_def)
qed

lemma roundEven_of_int [simp]: "roundEven (rat_of_int k) = k"
  by (simp add: roundEven_def)

lemma roundEven_nonneg: "0 \<le> y \<Longrightarrow> 0 \<le> roundEven y"
proof -
  assume "0 \<le> y"
  then have "0 \<le> floor y" by simp
  then show ?thesis
    by (auto simp: roundEven_def Let_def)
qed

lemma fl_at:
  assumes "2 powi e \<le> \<bar>x\<bar>" and "\<bar>x\<bar> < 2 powi (e + 1)"
  shows "fl x = rat_of_int (roundEven (x / 2 powi (e - 52))) * 2 powi (e - 52)"
proof -
  have "(0::rat) < 2 powi e" by simp
  then have "0 < \<bar>x\<bar>" using assms(1) by (rule less_le_trans)
  then have "x \<noteq> 0" by simp
  then show ?thesis
    by (simp add: fl_def expo_unique [OF assms])
qed

lemma fl_error: "\<bar>fl x - x\<bar> \<le> \<bar>x\<bar> / 2 ^ 53"
proof (cases "x = 0")
  case True
  then show ?thesis by (simp add: fl_def)
next
  case False
  define u :: rat where "u = 2 powi (expo x - 52)"
  have u: "0 < u" by (simp add: u_def)
  have "fl x - x = u * (rat_of_int (roundEven (x / u)) - x / u)"
    using False u by (simp add: fl_def u_def field_simps)
  then have "\<bar>fl x - x\<bar> = u * \<bar>rat_of_int (roundEven (x / u)) - x / u\<bar>"
    using u by (simp add: abs_mult)
  also have "\<dots> \<le> u * (1 / 2)"
    using u roundEven_error [of "x / u"] by (intro mult_left_mono) simp_all
  also have "u * (1 / 2) = 2 powi expo x / 2 ^ 53"
  proof -
    have "(2::rat) powi (expo x - 52) = 2 powi expo x / 2 powi 52"
      by (rule power_int_diff) simp
    then show ?thesis by (simp add: u_def)
  qed
  also have "\<dots> \<le> \<bar>x\<bar> / 2 ^ 53"
    using expo_bounds [OF False] by (simp add: divide_right_mono)
  finally show ?thesis .
qed

lemma fl_nonneg: "0 \<le> x \<Longrightarrow> 0 \<le> fl x"
proof (cases "x = 0")
  case True
  then show ?thesis by (simp add: fl_def)
next
  case False
  assume "0 \<le> x"
  then have "0 \<le> x / 2 powi (expo x - 52)" by simp
  then have "0 \<le> roundEven (x / 2 powi (expo x - 52))"
    by (rule roundEven_nonneg)
  then show ?thesis
    using False by (simp add: fl_def)
qed


lemma fl_dyadic:
  assumes "\<bar>m\<bar> \<le> 2 ^ 53"
  shows "fl (rat_of_int m * 2 powi k) = rat_of_int m * 2 powi k"
proof (cases "m = 0")
  case True
  then show ?thesis by (simp add: fl_def)
next
  case False
  define x where "x = rat_of_int m * 2 powi k"
  define e where "e = expo x"
  have nz: "x \<noteq> 0"
    using False by (simp add: x_def)
  from expo_bounds [OF nz]
  have lo: "2 powi e \<le> \<bar>x\<bar>" and hi: "\<bar>x\<bar> < 2 powi (e + 1)"
    by (simp_all add: e_def)
  have ax: "\<bar>x\<bar> = rat_of_int \<bar>m\<bar> * 2 powi k"
    by (simp add: x_def abs_mult)
  have p53: "(2::rat) powi (53 + k) = 2 ^ 53 * 2 powi k"
    by (simp add: power_int_add)
  have "rat_of_int \<bar>m\<bar> \<le> rat_of_int (2 ^ 53)"
    using assms by (simp only: of_int_le_iff)
  then have "\<bar>x\<bar> \<le> 2 ^ 53 * 2 powi k"
    unfolding ax by (intro mult_right_mono) simp_all
  with lo have le: "(2::rat) powi e \<le> 2 powi (53 + k)"
    unfolding p53 by simp
  have ek: "e \<le> 53 + k"
  proof (rule ccontr)
    assume "\<not> e \<le> 53 + k"
    then have "(2::rat) powi (53 + k) < 2 powi e"
      by (intro power_int_strict_increasing) simp_all
    with le show False by simp
  qed
  have fx: "fl x = rat_of_int (roundEven (x / 2 powi (e - 52))) * 2 powi (e - 52)"
    using nz by (simp add: fl_def e_def)
  show ?thesis
  proof (cases "e \<le> 52 + k")
    case True
    define j where "j = nat (k - (e - 52))"
    have j: "int j = k - (e - 52)"
      using True by (simp add: j_def)
    have "(2::rat) powi (k - (e - 52)) = 2 powi k / 2 powi (e - 52)"
      by (rule power_int_diff) simp
    then have q: "2 powi k / 2 powi (e - 52) = (2::rat) ^ j"
      using j by (metis power_int_of_nat)
    have "x / 2 powi (e - 52) = rat_of_int m * (2 powi k / 2 powi (e - 52))"
      by (simp add: x_def)
    also have "\<dots> = rat_of_int (m * 2 ^ j)"
      unfolding q by simp
    finally have xq: "x / 2 powi (e - 52) = rat_of_int (m * 2 ^ j)" .
    have "fl x = rat_of_int (m * 2 ^ j) * 2 powi (e - 52)"
      unfolding fx xq by (simp only: roundEven_of_int)
    also have "\<dots> = rat_of_int m * (2 powi k / 2 powi (e - 52) * 2 powi (e - 52))"
      unfolding q by simp
    also have "\<dots> = x"
      by (simp add: x_def)
    finally show ?thesis by (simp add: x_def)
  next
    case False
    with ek have e: "e = 53 + k" by simp
    from lo have "2 ^ 53 * 2 powi k \<le> rat_of_int \<bar>m\<bar> * 2 powi k"
      unfolding e p53 ax .
    then have "(2::rat) ^ 53 \<le> rat_of_int \<bar>m\<bar>"
      by simp
    then have "rat_of_int (2 ^ 53) \<le> rat_of_int \<bar>m\<bar>"
      by simp
    then have "2 ^ 53 \<le> \<bar>m\<bar>"
      by (simp only: of_int_le_iff)
    with assms have "\<bar>m\<bar> = 2 ^ 53" by simp
    then have "m = 2 ^ 53 \<or> m = - (2 ^ 53)" by linarith
    then have ev: "m = 2 * (m div 2)" by auto
    have pk: "(2::rat) powi (e - 52) = 2 powi k * 2"
      unfolding e using power_int_add [of "2::rat" k 1] by (simp add: add.commute)
    have "x / 2 powi (e - 52) = rat_of_int m / 2"
      unfolding pk by (simp add: x_def)
    also have "\<dots> = rat_of_int (m div 2)"
      using ev by (metis nonzero_mult_div_cancel_left of_int_mult of_int_numeral zero_neq_numeral)
    finally have xq: "x / 2 powi (e - 52) = rat_of_int (m div 2)" .
    have "fl x = rat_of_int (m div 2) * 2 powi (e - 52)"
      unfolding fx xq by (simp only: roundEven_of_int)
    then have "fl x = rat_of_int (m div 2) * (2 powi k * 2)"
      unfolding pk .
    also have "\<dots> = rat_of_int (2 * (m div 2)) * 2 powi k"
      by simp
    also have "\<dots> = x"
      using ev by (simp add: x_def)
    finally show ?thesis by (simp add: x_def)
  qed
qed

lemma fl_of_int: "\<bar>n\<bar> \<le> 2 ^ 53 \<Longrightarrow> fl (rat_of_int n) = rat_of_int n"
  using fl_dyadic [of n 0] by simp

text \<open>The double nearest to an integer is an integer.\<close>

lemma fl_int: "\<exists>j. fl (rat_of_int n) = rat_of_int j"
proof (cases "\<bar>n\<bar> \<le> 2 ^ 53")
  case True
  then show ?thesis using fl_of_int by blast
next
  case False
  define x where "x = rat_of_int n"
  have "rat_of_int (2 ^ 53) < rat_of_int \<bar>n\<bar>"
    using False by (simp only: of_int_less_iff)
  then have big: "2 ^ 53 < \<bar>x\<bar>"
    by (simp add: x_def)
  then have nz: "x \<noteq> 0" by auto
  from expo_bounds [OF nz] have hi: "\<bar>x\<bar> < 2 powi (expo x + 1)"
    by simp
  have e: "53 \<le> expo x"
  proof (rule ccontr)
    assume "\<not> 53 \<le> expo x"
    then have "expo x + 1 \<le> 53" by simp
    then have "(2::rat) powi (expo x + 1) \<le> 2 powi 53"
      by (intro power_int_increasing) simp_all
    with hi big show False by simp
  qed
  define k where "k = nat (expo x - 52)"
  have "(2::rat) powi (expo x - 52) = 2 ^ k"
    using e by (simp add: k_def power_int_def)
  then have "fl x = rat_of_int (roundEven (x / 2 ^ k) * 2 ^ k)"
    using nz by (simp add: fl_def)
  then show ?thesis
    unfolding x_def by blast
qed

text \<open>Rounding does not bring a number of 54 bits or more below \<open>2^53 - 1\<close>.\<close>

lemma fl_large:
  assumes "2 ^ 53 \<le> \<bar>x\<bar>"
  shows "2 ^ 53 - 1 \<le> \<bar>fl x\<bar>"
proof -
  have "\<bar>x\<bar> - \<bar>fl x\<bar> \<le> \<bar>fl x - x\<bar>" by simp
  with fl_error [of x] have "\<bar>x\<bar> - \<bar>x\<bar> / 2 ^ 53 \<le> \<bar>fl x\<bar>" by linarith
  with assms show ?thesis by simp
qed

lemma fl_numeral [simp]:
  "numeral k \<le> (9007199254740992::int) \<Longrightarrow> fl (numeral k) = numeral k"
  using fl_of_int [of "numeral k"] by simp

lemma fl_neg_numeral [simp]:
  "numeral k \<le> (9007199254740992::int) \<Longrightarrow> fl (- numeral k) = - numeral k"
  using fl_of_int [of "- numeral k"] by simp

lemma fl_0 [simp]: "fl 0 = 0"
  by (simp add: fl_def)

lemma fl_1 [simp]: "fl 1 = 1"
  using fl_of_int [of 1] by simp

lemma fl_half [simp]:
  "numeral k \<le> (9007199254740992::int) \<Longrightarrow> fl (numeral k / 2) = numeral k / 2"
  using fl_dyadic [of "numeral k" "- 1"] by simp

subsection \<open>Evaluating floor and ceiling of rational numerals\<close>

lemma floor_rat_numeral [simp]:
  "floor (numeral a / numeral b :: rat) = numeral a div numeral b"
  by (metis floor_divide_of_int_eq of_int_numeral)

lemma floor_rat_neg_numeral [simp]:
  "floor (- (numeral a / numeral b) :: rat) = - numeral a div numeral b"
  by (metis divide_minus_left floor_divide_of_int_eq of_int_neg_numeral of_int_numeral)

lemma ceiling_rat_numeral [simp]:
  "ceiling (numeral a / numeral b :: rat) = - (- numeral a div numeral b)"
  unfolding ceiling_def by (simp only: floor_rat_neg_numeral)

lemma ceiling_rat_neg_numeral [simp]:
  "ceiling (- (numeral a / numeral b) :: rat) = - (numeral a div numeral b)"
  unfolding ceiling_def by (simp only: minus_minus floor_rat_numeral)

lemma ceiling_nonneg: "0 \<le> (x::rat) \<Longrightarrow> 0 \<le> ceiling x"
  by simp

subsection \<open>Billing arithmetic\<close>

lemmas js_defs = jsDiv_def jsMul_def jsAdd_def jsSub_def

lemma fl_neg_1 [simp]: "fl (- 1) = - 1"
  using fl_of_int [of "- 1"] by simp

lemma fl_one_half [simp]: "fl (1 / 2) = 1 / 2"
  using fl_dyadic [of 1 "- 1"] by simp

text \<open>
  The accrued amount is the rounded product of a whole number of thousands and 1000.
\<close>

lemma oynaganSumma_thousands:
  "\<exists>c. oynaganSumma p d = fl (rat_of_int (c * 1000)) \<and>
       c = ceiling (fl (rat_of_int (ceiling (fl (fl (rat_of_int d / 3600000) * p))) / 1000))"
  by (simp add: oynaganSumma_def jsDiv_def jsMul_def)

lemma oynaganSumma_int: "\<exists>j. oynaganSumma p d = rat_of_int j"
proof -
  from oynaganSumma_thousands [of p d] obtain c
    where "oynaganSumma p d = fl (rat_of_int (c * 1000))"
    by blast
  with fl_int [of "c * 1000"] show ?thesis by simp
qed

lemma oynaganSumma_nonneg:
  assumes "0 \<le> d" and "0 \<le> p"
  shows "0 \<le> oynaganSumma p d"
proof -
  have "0 \<le> jsDiv (rat_of_int d) (3600 * 1000)"
    unfolding jsDiv_def using assms(1) by (intro fl_nonneg) simp
  then have "0 \<le> jsMul (jsDiv (rat_of_int d) (3600 * 1000)) p"
    unfolding jsMul_def using assms(2) by (intro fl_nonneg) simp
  then have "0 \<le> ceiling (jsMul (jsDiv (rat_of_int d) (3600 * 1000)) p)"
    by (rule ceiling_nonneg)
  then have "0 \<le> jsDiv (rat_of_int (ceiling (jsMul (jsDiv (rat_of_int d) (3600 * 1000)) p))) 1000"
    unfolding jsDiv_def [of "rat_of_int _"] by (intro fl_nonneg) simp
  then have "0 \<le> ceiling (jsDiv (rat_of_int (ceiling (jsMul (jsDiv (rat_of_int d)
      (3600 * 1000)) p))) 1000)"
    by (rule ceiling_nonneg)
  then show ?thesis
    unfolding oynaganSumma_def jsMul_def [of "rat_of_int _"] by (intro fl_nonneg) simp
qed

text \<open>
  Below \<open>2^53\<close> the last product is exact. The next multiple of 1000 above \<open>2^53\<close> is
  9007199254741000, too far from \<open>2^53\<close> to be rounded down to it.
\<close>

lemma oynaganSumma_multiple:
  assumes "\<bar>oynaganSumma p d\<bar> \<le> 2 ^ 53"
  shows "\<exists>k. oynaganSumma p d = rat_of_int k * 1000"
proof -
  from oynaganSumma_thousands [of p d] obtain c
    where o: "oynaganSumma p d = fl (rat_of_int (c * 1000))"
    by blast
  have "\<bar>c * 1000\<bar> \<le> 2 ^ 53"
  proof (rule ccontr)
    assume "\<not> \<bar>c * 1000\<bar> \<le> 2 ^ 53"
    then have "9007199254740 < \<bar>c\<bar>" by (simp add: abs_mult)
    then have "9007199254741000 \<le> \<bar>c * 1000\<bar>" by (simp add: abs_mult)
    then have "rat_of_int 9007199254741000 \<le> rat_of_int \<bar>c * 1000\<bar>"
      by (simp only: of_int_le_iff)
    then have b: "9007199254741000 \<le> \<bar>rat_of_int (c * 1000)\<bar>"
      by simp
    have "\<bar>rat_of_int (c * 1000)\<bar> - \<bar>fl (rat_of_int (c * 1000))\<bar>
        \<le> \<bar>fl (rat_of_int (c * 1000)) - rat_of_int (c * 1000)\<bar>"
      by simp
    with fl_error [of "rat_of_int (c * 1000)"]
    have "\<bar>rat_of_int (c * 1000)\<bar> - \<bar>rat_of_int (c * 1000)\<bar> / 2 ^ 53
        \<le> \<bar>fl (rat_of_int (c * 1000))\<bar>"
      by linarith
    with b have "2 ^ 53 < \<bar>fl (rat_of_int (c * 1000))\<bar>" by simp
    with assms o show False by simp
  qed
  then have "fl (rat_of_int (c * 1000)) = rat_of_int (c * 1000)"
    by (rule fl_of_int)
  with o have "oynaganSumma p d = rat_of_int c * 1000" by simp
  then show ?thesis ..
qed

text \<open>
  When the exact amount \<open>hours * price\<close> is at most \<open>2^52\<close> in magnitude, the four
  roundings and the two ceilings keep the result below \<open>2^53\<close>.
\<close>

lemma oynaganSumma_small:
  assumes "\<bar>rat_of_int d / 3600000 * p\<bar> \<le> 2 ^ 52"
  shows "\<bar>oynaganSumma p d\<bar> < 2 ^ 53"
proof -
  define H where "H = rat_of_int d / 3600000"
  define h where "h = fl H"
  define r0 where "r0 = fl (h * p)"
  define raw where "raw = ceiling r0"
  define q where "q = fl (rat_of_int raw / 1000)"
  define c where "c = ceiling q"
  define A where "A = \<bar>H\<bar> * \<bar>p\<bar>"
  have A: "0 \<le> A" "A \<le> 4503599627370496"
    using assms by (simp_all add: A_def H_def abs_mult)
  have "\<bar>h\<bar> - \<bar>H\<bar> \<le> \<bar>h - H\<bar>" by simp
  with fl_error [of H] have "\<bar>h\<bar> \<le> \<bar>H\<bar> + \<bar>H\<bar> / 9007199254740992"
    by (simp add: h_def)
  then have "\<bar>h\<bar> * \<bar>p\<bar> \<le> (\<bar>H\<bar> + \<bar>H\<bar> / 9007199254740992) * \<bar>p\<bar>"
    by (intro mult_right_mono) simp_all
  also have "\<dots> = A + A / 9007199254740992"
    by (simp add: A_def algebra_simps)
  finally have x: "\<bar>h * p\<bar> \<le> A + A / 9007199254740992"
    by (simp add: abs_mult)
  have "\<bar>r0\<bar> - \<bar>h * p\<bar> \<le> \<bar>r0 - h * p\<bar>" by simp
  with fl_error [of "h * p"] have "\<bar>r0\<bar> \<le> \<bar>h * p\<bar> + \<bar>h * p\<bar> / 9007199254740992"
    by (simp add: r0_def)
  with x A have r0: "\<bar>r0\<bar> \<le> 4503599627370498" by simp
  have "r0 \<le> rat_of_int raw" and "rat_of_int raw < r0 + 1"
    unfolding raw_def by linarith+
  with r0 have raw: "\<bar>rat_of_int raw\<bar> \<le> 4503599627370499" by simp
  have "\<bar>q\<bar> - \<bar>rat_of_int raw / 1000\<bar> \<le> \<bar>q - rat_of_int raw / 1000\<bar>" by simp
  with fl_error [of "rat_of_int raw / 1000"]
  have "\<bar>q\<bar> \<le> \<bar>rat_of_int raw / 1000\<bar> + \<bar>rat_of_int raw / 1000\<bar> / 9007199254740992"
    by (simp add: q_def)
  with raw have q: "\<bar>q\<bar> \<le> 4503599627371" by simp
  have "q \<le> rat_of_int c" and "rat_of_int c < q + 1"
    unfolding c_def by linarith+
  with q have "\<bar>rat_of_int c\<bar> \<le> 4503599627372" by simp
  then have "rat_of_int \<bar>c\<bar> \<le> rat_of_int 4503599627372" by simp
  then have "\<bar>c\<bar> \<le> 4503599627372" by (simp only: of_int_le_iff)
  then have c: "\<bar>c * 1000\<bar> \<le> 4503599627372000" by simp
  then have "\<bar>c * 1000\<bar> \<le> 2 ^ 53" by simp
  then have "fl (rat_of_int (c * 1000)) = rat_of_int (c * 1000)"
    by (rule fl_of_int)
  then have "oynaganSumma p d = rat_of_int (c * 1000)"
    by (simp add: oynaganSumma_def jsDiv_def jsMul_def c_def q_def raw_def r0_def h_def H_def)
  moreover have "rat_of_int \<bar>c * 1000\<bar> \<le> rat_of_int 4503599627372000"
    using c by (simp only: of_int_le_iff)
  ultimately show ?thesis by simp
qed

text \<open>The three formulas with the roundings written out.\<close>

lemma cashMs_formula: "cashMs p a = floor (fl (fl (fl (a / p) * 3600) * 1000))"
  by (simp add: cashMs_def js_defs)

lemma oynaganSumma_formula:
  "oynaganSumma p ms =
     fl (rat_of_int (ceiling (fl (rat_of_int (ceiling (fl (fl (rat_of_int ms / 3600000) * p)))
                                   / 1000)))
         * 1000)"
  by (simp add: oynaganSumma_def js_defs)

text \<open>
  Whole minutes: below \<open>2^53\<close> milliseconds the rounding of the quotient never reaches
  the next integer, so the result is the exact floor.
\<close>

lemma minutesOf_exact:
  assumes "\<bar>ms\<bar> < 2 ^ 53"
  shows "minutesOf ms = floor (rat_of_int ms / 60000)"
proof -
  define q where "q = rat_of_int ms / 60000"
  define n where "n = ms div 60000"
  define r where "r = ms mod 60000"
  have ms: "ms = 60000 * n + r" and r: "0 \<le> r" "r < 60000"
    by (simp_all add: n_def r_def)
  have q: "q = rat_of_int n + rat_of_int r / 60000"
    unfolding q_def by (subst ms) (simp add: field_simps)
  have fq: "floor q = n"
    unfolding q_def n_def by (metis floor_divide_of_int_eq of_int_numeral)
  have "floor (fl q) = n"
  proof (cases "r = 0")
    case True
    then have "q = rat_of_int n" using q by simp
    moreover have "\<bar>n\<bar> \<le> 2 ^ 53"
      using assms ms True by simp
    ultimately show ?thesis by (simp add: fl_of_int)
  next
    case False
    with r have r1: "1 \<le> r" "r \<le> 59999" by simp_all
    have lo: "rat_of_int n + 1 / 60000 \<le> q"
      unfolding q using r1(1) by (simp add: field_simps)
    have hi: "q \<le> rat_of_int n + 1 - 1 / 60000"
    proof -
      have "rat_of_int r \<le> 59999" using r1(2) by (metis of_int_le_iff of_int_numeral)
      then show ?thesis unfolding q by (simp add: field_simps)
    qed
    have "\<bar>q\<bar> < 2 ^ 53 / 60000"
    proof -
      have "rat_of_int \<bar>ms\<bar> < rat_of_int (2 ^ 53)"
        using assms by (simp only: of_int_less_iff)
      then show ?thesis by (simp add: q_def)
    qed
    then have "\<bar>q\<bar> / 2 ^ 53 < 1 / 60000" by simp
    with fl_error [of q] have e: "\<bar>fl q - q\<bar> < 1 / 60000" by simp
    from e lo have "rat_of_int n \<le> fl q" by linarith
    moreover from e hi have "fl q < rat_of_int n + 1" by linarith
    ultimately show ?thesis by (simp add: floor_unique)
  qed
  then show ?thesis
    using fq by (simp add: minutesOf_def jsDiv_def q_def)
qed

text \<open>
  The relative error of the three rounded operations of \<open>cashMs\<close> is below \<open>2^-51\<close>.
\<close>

lemma fl_mult_error:
  assumes "\<bar>x - X\<bar> \<le> r * \<bar>X\<bar>" and "0 \<le> r" and "0 \<le> c"
  shows "\<bar>fl (x * c) - X * c\<bar> \<le> (r + (1 + r) / 2 ^ 53) * \<bar>X * c\<bar>"
proof -
  have "\<bar>x\<bar> \<le> \<bar>X\<bar> + \<bar>x - X\<bar>" by simp
  with assms(1) have x: "\<bar>x\<bar> \<le> (1 + r) * \<bar>X\<bar>"
    by (simp add: algebra_simps)
  have "\<bar>fl (x * c) - x * c\<bar> \<le> \<bar>x * c\<bar> / 2 ^ 53"
    by (rule fl_error)
  also have "\<bar>x * c\<bar> / 2 ^ 53 = \<bar>x\<bar> * (c / 2 ^ 53)"
    using assms(3) by (simp add: abs_mult)
  also have "\<dots> \<le> (1 + r) * \<bar>X\<bar> * (c / 2 ^ 53)"
    using x assms(3) by (intro mult_right_mono) simp_all
  finally have a: "\<bar>fl (x * c) - x * c\<bar> \<le> (1 + r) / 2 ^ 53 * \<bar>X * c\<bar>"
    using assms(3) by (simp add: abs_mult)
  have "\<bar>x * c - X * c\<bar> = \<bar>x - X\<bar> * c"
    using assms(3) by (simp add: abs_mult flip: left_diff_distrib)
  also have "\<dots> \<le> r * \<bar>X\<bar> * c"
    using assms(1,3) by (intro mult_right_mono) simp_all
  finally have b: "\<bar>x * c - X * c\<bar> \<le> r * \<bar>X * c\<bar>"
    using assms(3) by (simp add: abs_mult)
  have t: "\<bar>fl (x * c) - X * c\<bar> \<le> \<bar>fl (x * c) - x * c\<bar> + \<bar>x * c - X * c\<bar>"
    by simp
  have "(r + (1 + r) / 2 ^ 53) * \<bar>X * c\<bar> = r * \<bar>X * c\<bar> + (1 + r) / 2 ^ 53 * \<bar>X * c\<bar>"
    by (rule distrib_right)
  with a b t show ?thesis by linarith
qed

lemma cashMs_error:
  "\<bar>fl (fl (fl (a / p) * 3600) * 1000) - a / p * 3600000\<bar> \<le> \<bar>a / p * 3600000\<bar> / 2 ^ 51"
proof -
  define q where "q = a / p"
  define e :: rat where "e = 1 / 2 ^ 53"
  have e: "0 \<le> e" by (simp add: e_def)
  have "\<bar>fl q - q\<bar> \<le> e * \<bar>q\<bar>"
    using fl_error [of q] by (simp add: e_def)
  from fl_mult_error [OF this e, of 3600]
  have "\<bar>fl (fl q * 3600) - q * 3600\<bar> \<le> (e + (1 + e) * e) * \<bar>q * 3600\<bar>"
    by (simp add: e_def)
  from fl_mult_error [OF this, of 1000]
  have "\<bar>fl (fl (fl q * 3600) * 1000) - q * 3600 * 1000\<bar>
      \<le> (e + (1 + e) * e + (1 + (e + (1 + e) * e)) * e) * \<bar>q * 3600 * 1000\<bar>"
    using e by (simp add: e_def)
  also have "\<dots> \<le> 1 / 2 ^ 51 * \<bar>q * 3600 * 1000\<bar>"
    by (intro mult_right_mono) (simp_all add: e_def)
  finally show ?thesis
    by (simp add: q_def mult.assoc)
qed

lemma cashMs_near_exact:
  assumes "\<bar>a / p * 3600000\<bar> \<le> 2 ^ 50"
  shows "\<bar>cashMs p a - floor (a / p * 3600000)\<bar> \<le> 1"
proof -
  define E where "E = a / p * 3600000"
  define m where "m = fl (fl (fl (a / p) * 3600) * 1000)"
  have "\<bar>m - E\<bar> \<le> \<bar>E\<bar> / 2 ^ 51"
    unfolding m_def E_def by (rule cashMs_error)
  also have "\<dots> \<le> 2 ^ 50 / 2 ^ 51"
    using assms by (intro divide_right_mono) (simp_all add: E_def)
  finally have d: "\<bar>m - E\<bar> \<le> 1 / 2" by simp
  have "floor m \<le> floor E + 1" and "floor E - 1 \<le> floor m"
    using d by linarith+
  then show ?thesis
    by (simp add: cashMs_formula m_def E_def)
qed

subsection \<open>The arithmetic at the inputs of the examples\<close>

text \<open>65000 / 15000 * 3600 * 1000 in doubles: 4.333333333333333, 15599.999999999998,
  15599999.999999998.\<close>

lemma fl_13_3: "fl (13 / 3) = 4878899596318037 / 1125899906842624"
  using fl_at [of 2 "13 / 3"] by (simp add: roundEven_def Let_def)

lemma fl_hours_3600:
  "fl (1097752409171558325 / 70368744177664) = 8576190696652799 / 549755813888"
  using fl_at [of 13 "1097752409171558325 / 70368744177664"]
  by (simp add: roundEven_def Let_def)

lemma fl_secs_1000:
  "fl (1072023837081599875 / 68719476736) = 8375186227199999 / 536870912"
  using fl_at [of 23 "1072023837081599875 / 68719476736"]
  by (simp add: roundEven_def Let_def)

lemma cashMs_65000: "cashMs 15000 65000 = 15599999"
  by (simp add: cashMs_formula fl_13_3 fl_hours_3600 fl_secs_1000)

text \<open>9 / 15000 * 3600 * 1000 in doubles: 0.0006, 2.1599999999999997,
  2159.9999999999995; but 0.0006 * 3600000 rounds to 2160.\<close>

lemma fl_3_5000: "fl (3 / 5000) = 5534023222112865 / 9223372036854775808"
  using fl_at [of "- 11" "3 / 5000"] by (simp add: roundEven_def Let_def)

lemma fl_hours9_3600:
  "fl (1245155224975394625 / 576460752303423488) = 4863887597560135 / 2251799813685248"
  using fl_at [of 1 "1245155224975394625 / 576460752303423488"]
  by (simp add: roundEven_def Let_def)

lemma fl_secs9_1000:
  "fl (607985949695016875 / 281474976710656) = 4749890231992319 / 2199023255552"
  using fl_at [of 11 "607985949695016875 / 281474976710656"]
  by (simp add: roundEven_def Let_def)

lemma fl_hours9_3600000:
  "fl (155644403121924328125 / 72057594037927936) = 2160"
  using fl_at [of 11 "155644403121924328125 / 72057594037927936"]
  by (simp add: roundEven_def Let_def)

lemma cashMs_9: "cashMs 15000 9 = 2159"
  by (simp add: cashMs_formula fl_3_5000 fl_hours9_3600 fl_secs9_1000)

lemma cashMs_9_one_product: "floor (fl (fl (9 / 15000) * 3600000)) = 2160"
  by (simp add: fl_3_5000 fl_hours9_3600000)

text \<open>
  40000000000000 / 15000 * 3600 * 1000 in doubles: 2666666666.6666665, 9600000000000,
  9600000000000000.
\<close>

lemma fl_8000000000_3: "fl (8000000000 / 3) = 5592405333333333 / 2097152"
  using fl_at [of 31 "8000000000 / 3"] by (simp add: roundEven_def Let_def)

lemma fl_hours13_3600: "fl (1258291199999999925 / 131072) = 9600000000000"
  using fl_at [of 43 "1258291199999999925 / 131072"] by (simp add: roundEven_def Let_def)

lemma fl_9600000000000000: "fl 9600000000000000 = 9600000000000000"
  using fl_dyadic [of 18310546875 19] by simp

lemma cashMs_40000000000000: "cashMs 15000 40000000000000 = 9600000000000000"
  by (simp add: cashMs_formula fl_8000000000_3 fl_hours13_3600 fl_9600000000000000)

text \<open>7440000 / 3600000 * 15000 in doubles: 2.066666666666667, 31000.000000000004.\<close>

lemma fl_31_15: "fl (31 / 15) = 4653719614949513 / 2251799813685248"
  using fl_at [of 1 "31 / 15"] by (simp add: roundEven_def Let_def)

lemma fl_hours_15000:
  "fl (8725724278030336875 / 281474976710656) = 8521215115264001 / 274877906944"
  using fl_at [of 14 "8725724278030336875 / 281474976710656"]
  by (simp add: roundEven_def Let_def)

lemma fl_31001_1000: "fl (31001 / 1000) = 8726005753007047 / 281474976710656"
  using fl_at [of 4 "31001 / 1000"] by (simp add: roundEven_def Let_def)

lemma oynaganSumma_7440000: "oynaganSumma 15000 7440000 = 32000"
  by (simp add: oynaganSumma_formula fl_31_15 fl_hours_15000 fl_31001_1000)

text \<open>
  7200001 / 3600000 * 50000000000000000 in doubles: 2.0000002777777777 and
  100000013888888880; a thousandth of that is 100000013888888.88, and 100000013888889
  times 1000 is rounded to 100000013888888992.
\<close>

lemma fl_7200001_3600000: "fl (7200001 / 3600000) = 1125900063217611 / 562949953421312"
  using fl_at [of 1 "7200001 / 3600000"] by (simp add: roundEven_def Let_def)

lemma fl_hours_price17:
  "fl (858993578504647064208984375 / 8589934592) = 100000013888888880"
  using fl_at [of 56 "858993578504647064208984375 / 8589934592"]
  by (simp add: roundEven_def Let_def)

lemma fl_thousandth17: "fl (2500000347222222 / 25) = 800000111111111 / 8"
  using fl_at [of 46 "2500000347222222 / 25"] by (simp add: roundEven_def Let_def)

lemma fl_thousands17: "fl 100000013888889000 = 100000013888888992"
  using fl_at [of 56 100000013888889000] by (simp add: roundEven_def Let_def)

lemma oynaganSumma_17: "oynaganSumma 50000000000000000 7200001 = 100000013888888992"
  by (simp add: oynaganSumma_formula fl_7200001_3600000 fl_hours_price17 fl_thousandth17
      fl_thousands17)

lemma oynaganSumma_examples:
  "oynaganSumma 15000 1800000 = 8000"
  "oynaganSumma 15000 3600000 = 15000"
  "oynaganSumma 15000 5400000 = 23000"
  "oynaganSumma 15000 7200000 = 30000"
  "oynaganSumma 15000 (- 3600000) = - 15000"
  by (simp_all add: oynaganSumma_formula)


lemma minutesOf_examples:
  "minutesOf 5400000 = 90" "minutesOf 1800000 = 30" "minutesOf 3600000 = 60"
  "minutesOf 7200000 = 120" "minutesOf 7440000 = 124"
  by (simp_all add: minutesOf_exact)

subsection \<open>Lookup\<close>

lemma find_distinct_key:
  "distinct (map f xs) \<Longrightarrow> b \<in> set xs \<Longrightarrow> find (\<lambda>x. f x = f b) xs = Some b"
  by (induction xs) (auto simp: image_iff)

lemma find_False [simp]: "find (\<lambda>x. False) xs = None"
  by (induction xs) simp_all

lemma find_eq_commute: "find (\<lambda>x. k = f x) xs = find (\<lambda>x. f x = k) xs"
  by (induction xs) auto

lemma firstMatch_single [simp]: "firstMatch [r] = r"
  by (cases r) simp_all

lemma byPrimaryKey_eq:
  "byPrimaryKey cfg s st = (case objectIdOf cfg s of None \<Rightarrow> None | Some k \<Rightarrow> findById k st)"
proof (cases "objectIdOf cfg s")
  case None
  then show ?thesis by (simp add: byPrimaryKey_def)
next
  case (Some k)
  then show ?thesis by (simp add: byPrimaryKey_def findById_def find_eq_commute)
qed

lemma byOrderNumber_eq:
  "byOrderNumber cfg s st =
     (case numberOf cfg s of None \<Rightarrow> None
      | Some n \<Rightarrow> find (\<lambda>x. rat_of_int (orderId x) = n) (orders st))"
proof (cases "numberOf cfg s")
  case None
  then show ?thesis by (simp add: byOrderNumber_def)
next
  case (Some n)
  then show ?thesis by (simp add: byOrderNumber_def find_eq_commute)
qed

lemma findOrderByAnyId_lookupSpec: "findOrderByAnyId cfg s st = lookupSpec cfg s st"
  unfolding findOrderByAnyId_def lookupSpec_def byPrimaryKey_eq [symmetric]
    byOrderNumber_eq [symmetric] byExternalId_def
  by (cases "byPrimaryKey cfg s st"; cases "byOrderNumber cfg s st") simp_all

lemma byOrderNumber_unique:
  assumes "distinct (map orderId (orders st))" and "b \<in> set (orders st)"
    and "numberOf cfg s = Some (rat_of_int (orderId b))"
  shows "byOrderNumber cfg s st = Some b"
proof -
  have "byOrderNumber cfg s st = find (\<lambda>x. orderId x = orderId b) (orders st)"
    using assms(3) by (simp add: byOrderNumber_def find_eq_commute)
  then show ?thesis
    using assms(1,2) by (simp add: find_distinct_key)
qed

text \<open>
  C5. \<open>findOrderByAnyId\<close> is the first match of the three strategies in the order
  primary key, numeric \<open>orderId\<close>, \<open>externalId\<close>, and it finds nothing exactly when none
  of them matches. In particular, when the identifier is the \<open>externalId\<close> of an order
  \<open>a\<close> and reads as the number of another order \<open>b\<close> (and is not the primary key of an
  order, the first strategy), the lookup returns \<open>b\<close>, although the third strategy
  would match.
\<close>

theorem findOrderByAnyId_precedence:
  "findOrderByAnyId cfg s st = lookupSpec cfg s st \<and>
   (findOrderByAnyId cfg s st = None \<longleftrightarrow>
      byPrimaryKey cfg s st = None \<and> byOrderNumber cfg s st = None \<and> byExternalId s st = None) \<and>
   (byPrimaryKey cfg s st = None \<and> distinct (map orderId (orders st)) \<and>
    a \<in> set (orders st) \<and> b \<in> set (orders st) \<and> externalId a = s \<and>
    numberOf cfg s = Some (rat_of_int (orderId b)) \<and> orderId a \<noteq> orderId b
    \<longrightarrow> byExternalId s st \<noteq> None \<and> findOrderByAnyId cfg s st = Some b \<and> b \<noteq> a)"
proof (intro conjI impI)
  show "findOrderByAnyId cfg s st = lookupSpec cfg s st"
    by (rule findOrderByAnyId_lookupSpec)
  show "findOrderByAnyId cfg s st = None \<longleftrightarrow>
      byPrimaryKey cfg s st = None \<and> byOrderNumber cfg s st = None \<and> byExternalId s st = None"
    unfolding findOrderByAnyId_lookupSpec lookupSpec_def
    by (cases "byPrimaryKey cfg s st"; cases "byOrderNumber cfg s st") simp_all
next
  assume h: "byPrimaryKey cfg s st = None \<and> distinct (map orderId (orders st)) \<and>
    a \<in> set (orders st) \<and> b \<in> set (orders st) \<and> externalId a = s \<and>
    numberOf cfg s = Some (rat_of_int (orderId b)) \<and> orderId a \<noteq> orderId b"
  then have "byOrderNumber cfg s st = Some b"
    using byOrderNumber_unique by blast
  with h show "findOrderByAnyId cfg s st = Some b"
    by (simp add: findOrderByAnyId_lookupSpec lookupSpec_def)
  from h show "b \<noteq> a" by auto
  from h show "byExternalId s st \<noteq> None"
    by (auto simp: byExternalId_def find_None_iff)
qed


theorem findOrderByAnyId_precedence_witness:
  "byPrimaryKey exampleConfig ''7'' exampleStore = None \<and>
   distinct (map orderId (orders exampleStore)) \<and>
   lookalikeOrder \<in> set (orders exampleStore) \<and> exampleOrder \<in> set (orders exampleStore) \<and>
   externalId lookalikeOrder = ''7'' \<and>
   numberOf exampleConfig ''7'' = Some (rat_of_int (orderId exampleOrder)) \<and>
   orderId lookalikeOrder \<noteq> orderId exampleOrder \<and>
   byExternalId ''7'' exampleStore = Some lookalikeOrder \<and>
   findOrderByAnyId exampleConfig ''7'' exampleStore = Some exampleOrder"
proof -
  have h: "byPrimaryKey exampleConfig ''7'' exampleStore = None \<and>
    distinct (map orderId (orders exampleStore)) \<and>
    lookalikeOrder \<in> set (orders exampleStore) \<and> exampleOrder \<in> set (orders exampleStore) \<and>
    externalId lookalikeOrder = ''7'' \<and>
    numberOf exampleConfig ''7'' = Some (rat_of_int (orderId exampleOrder)) \<and>
    orderId lookalikeOrder \<noteq> orderId exampleOrder"
    by (simp add: byPrimaryKey_def exampleConfig_def exampleStore_def exampleOrder_def
        lookalikeOrder_def trashedOrder_def)
  have e: "byExternalId ''7'' exampleStore = Some lookalikeOrder"
    by (simp add: byExternalId_def exampleStore_def exampleOrder_def lookalikeOrder_def)
  from h have "findOrderByAnyId exampleConfig ''7'' exampleStore = Some exampleOrder"
    using findOrderByAnyId_precedence
      [of exampleConfig "''7''" exampleStore lookalikeOrder exampleOrder]
    by blast
  with h e show ?thesis by blast
qed

subsection \<open>Create\<close>

text \<open>
  The end time: a sum within the range of \<open>Date\<close> is below \<open>2^53\<close> and therefore exact; a
  sum beyond the range stays beyond it when it is rounded.
\<close>

lemma newDate_sum:
  assumes "\<bar>s + m\<bar> \<le> MAX_TIME"
  shows "newDate (jsAdd (rat_of_int s) (rat_of_int m)) = Some (s + m)"
proof -
  have "\<bar>s + m\<bar> \<le> 2 ^ 53"
    using assms by (simp add: MAX_TIME_def)
  then have "jsAdd (rat_of_int s) (rat_of_int m) = rat_of_int (s + m)"
    using fl_of_int [of "s + m"] by (simp add: jsAdd_def)
  moreover have "\<bar>rat_of_int (s + m)\<bar> \<le> rat_of_int MAX_TIME"
  proof -
    have "rat_of_int \<bar>s + m\<bar> \<le> rat_of_int MAX_TIME"
      using assms by (simp only: of_int_le_iff)
    then show ?thesis by simp
  qed
  ultimately show ?thesis
    by (simp add: newDate_def)
qed

lemma newDate_sum_invalid:
  assumes "MAX_TIME < \<bar>s + m\<bar>"
  shows "newDate (jsAdd (rat_of_int s) (rat_of_int m)) = None"
proof -
  define x where "x = rat_of_int (s + m)"
  have "rat_of_int MAX_TIME < rat_of_int \<bar>s + m\<bar>"
    using assms by (simp only: of_int_less_iff)
  then have x: "rat_of_int MAX_TIME < \<bar>x\<bar>"
    by (simp add: x_def)
  have "rat_of_int MAX_TIME < \<bar>fl x\<bar>"
  proof (cases "\<bar>s + m\<bar> \<le> 2 ^ 53")
    case True
    then have "fl x = x"
      unfolding x_def by (rule fl_of_int)
    with x show ?thesis by simp
  next
    case False
    then have "rat_of_int (2 ^ 53) \<le> rat_of_int \<bar>s + m\<bar>"
      by (simp only: of_int_le_iff)
    then have "2 ^ 53 \<le> \<bar>x\<bar>"
      by (simp add: x_def)
    from fl_large [OF this] show ?thesis
      by (simp add: MAX_TIME_def)
  qed
  then show ?thesis
    by (simp add: newDate_def jsAdd_def x_def)
qed

text \<open>
  C6 (amended). A create request of type cash whose amount is missing, zero or negative is
  answered with the validation error and the store is left as it was. With a positive
  amount, the duration is the floor of \<open>((amount / PRICE_PER_HOUR) * 3600) * 1000\<close>, each
  of the three operations rounded to the nearest double. When the start is a valid date
  and the start plus the duration is within the range of \<open>Date\<close>, the request succeeds: the
  new order is appended, and its \<open>endTime\<close> is its \<open>startTime\<close> plus the duration. When the
  start is not a valid date or the end is beyond the range, the save fails: the answer is
  the server error and the store is left as it was. Up to \<open>2^50\<close> milliseconds the
  duration is \<open>floor (amount / PRICE_PER_HOUR * 3600000)\<close> or one millisecond off it.
\<close>

theorem createOrder_cash:
  "(c_type req = Some ''cash'' \<and> (c_amount req = None \<or> (\<exists>a. c_amount req = Some a \<and> a \<le> 0))
      \<longrightarrow> createOrder cfg newId newExt now created req st = (Inl BadRequest, st)) \<and>
   (c_type req = Some ''cash'' \<and> c_amount req = Some a \<and> 0 < a \<and> startDate now req = Some s \<and>
    \<bar>s + floor (fl (fl (fl (a / PRICE_PER_HOUR cfg) * 3600) * 1000))\<bar> \<le> MAX_TIME
      \<longrightarrow> (\<exists>d. createOrder cfg newId newExt now created req st =
                 (Inr d, \<lparr>orders = orders st @ [d], seq = seq st + 1\<rparr>) \<and>
               otype d = ''cash'' \<and> status d = ''process'' \<and> summa d = a \<and>
               startTime d = s \<and>
               endTime d = Some (s + floor (fl (fl (fl (a / PRICE_PER_HOUR cfg) * 3600) * 1000))))) \<and>
   (c_type req = Some ''cash'' \<and> c_amount req = Some a \<and> 0 < a \<and>
    (startDate now req = None \<or>
     (startDate now req = Some s \<and>
      MAX_TIME < \<bar>s + floor (fl (fl (fl (a / PRICE_PER_HOUR cfg) * 3600) * 1000))\<bar>))
      \<longrightarrow> createOrder cfg newId newExt now created req st = (Inl ServerError, st)) \<and>
   (\<bar>a / PRICE_PER_HOUR cfg * 3600000\<bar> \<le> 2 ^ 50
      \<longrightarrow> \<bar>floor (fl (fl (fl (a / PRICE_PER_HOUR cfg) * 3600) * 1000))
            - floor (a / PRICE_PER_HOUR cfg * 3600000)\<bar> \<le> 1)"
proof (intro conjI impI)
  assume "c_type req = Some ''cash'' \<and> (c_amount req = None \<or> (\<exists>a. c_amount req = Some a \<and> a \<le> 0))"
  then show "createOrder cfg newId newExt now created req st = (Inl BadRequest, st)"
    by (auto simp: createOrder_def)
next
  assume h: "c_type req = Some ''cash'' \<and> c_amount req = Some a \<and> 0 < a \<and>
    startDate now req = Some s \<and>
    \<bar>s + floor (fl (fl (fl (a / PRICE_PER_HOUR cfg) * 3600) * 1000))\<bar> \<le> MAX_TIME"
  then have "\<bar>s + cashMs (PRICE_PER_HOUR cfg) a\<bar> \<le> MAX_TIME"
    by (simp add: cashMs_formula)
  from newDate_sum [OF this] h
  show "\<exists>d. createOrder cfg newId newExt now created req st =
                 (Inr d, \<lparr>orders = orders st @ [d], seq = seq st + 1\<rparr>) \<and>
               otype d = ''cash'' \<and> status d = ''process'' \<and> summa d = a \<and>
               startTime d = s \<and>
               endTime d = Some (s + floor (fl (fl (fl (a / PRICE_PER_HOUR cfg) * 3600) * 1000)))"
    by (simp add: createOrder_def Let_def typeEnum_def cashMs_formula)
next
  assume h: "c_type req = Some ''cash'' \<and> c_amount req = Some a \<and> 0 < a \<and>
    (startDate now req = None \<or>
     (startDate now req = Some s \<and>
      MAX_TIME < \<bar>s + floor (fl (fl (fl (a / PRICE_PER_HOUR cfg) * 3600) * 1000))\<bar>))"
  show "createOrder cfg newId newExt now created req st = (Inl ServerError, st)"
  proof (cases "startDate now req")
    case None
    with h show ?thesis
      by (simp add: createOrder_def Let_def)
  next
    case (Some t)
    with h have "MAX_TIME < \<bar>t + cashMs (PRICE_PER_HOUR cfg) a\<bar>"
      by (simp add: cashMs_formula)
    from newDate_sum_invalid [OF this] h Some show ?thesis
      by (simp add: createOrder_def Let_def)
  qed
next
  assume "\<bar>a / PRICE_PER_HOUR cfg * 3600000\<bar> \<le> 2 ^ 50"
  from cashMs_near_exact [OF this]
  show "\<bar>floor (fl (fl (fl (a / PRICE_PER_HOUR cfg) * 3600) * 1000))
            - floor (a / PRICE_PER_HOUR cfg * 3600000)\<bar> \<le> 1"
    by (simp add: cashMs_formula)
qed

theorem createOrder_cash_witness:
  "c_type (cashRequest 0) = Some ''cash'' \<and> c_amount (cashRequest 0) = Some 0 \<and>
   createOrder exampleConfig ''66f1a0c2e4b0a1b2c3d4e5f8'' ''n5Qw_2'' 5000 5001 (cashRequest 0) exampleStore
     = (Inl BadRequest, exampleStore) \<and>
   c_type (cashRequest 15000) = Some ''cash'' \<and> c_amount (cashRequest 15000) = Some 15000 \<and>
   startDate 5000 (cashRequest 15000) = Some 1000 \<and>
   \<bar>1000 + floor (fl (fl (fl (15000 / PRICE_PER_HOUR exampleConfig) * 3600) * 1000))\<bar> \<le> MAX_TIME \<and>
   \<bar>15000 / PRICE_PER_HOUR exampleConfig * 3600000\<bar> \<le> 2 ^ 50 \<and>
   (\<exists>d. createOrder exampleConfig ''66f1a0c2e4b0a1b2c3d4e5f8'' ''n5Qw_2'' 5000 5001 (cashRequest 15000) exampleStore
          = (Inr d, \<lparr>orders = orders exampleStore @ [d], seq = seq exampleStore + 1\<rparr>) \<and>
        startTime d = 1000 \<and> endTime d = Some (1000 + 3600000)) \<and>
   startDate 5000 ((cashRequest 15000)\<lparr>c_startTime := Some None\<rparr>) = None \<and>
   createOrder exampleConfig ''66f1a0c2e4b0a1b2c3d4e5f8'' ''n5Qw_2'' 5000 5001
       ((cashRequest 15000)\<lparr>c_startTime := Some None\<rparr>) exampleStore
     = (Inl ServerError, exampleStore)"
proof -
  have h0: "c_type (cashRequest 0) = Some ''cash'' \<and> c_amount (cashRequest 0) = Some 0"
    and h1: "c_type (cashRequest 15000) = Some ''cash'' \<and> c_amount (cashRequest 15000) = Some 15000"
    and h2: "c_type ((cashRequest 15000)\<lparr>c_startTime := Some None\<rparr>) = Some ''cash'' \<and>
             c_amount ((cashRequest 15000)\<lparr>c_startTime := Some None\<rparr>) = Some 15000"
    and s: "startDate 5000 (cashRequest 15000) = Some 1000"
    and n: "startDate 5000 ((cashRequest 15000)\<lparr>c_startTime := Some None\<rparr>) = None"
    and p: "PRICE_PER_HOUR exampleConfig = 15000"
    by (simp_all add: cashRequest_def exampleConfig_def startDate_def)
  have v: "floor (fl (fl (fl (15000 / 15000) * 3600) * 1000)) = 3600000"
    by simp
  have r: "\<bar>1000 + floor (fl (fl (fl (15000 / PRICE_PER_HOUR exampleConfig) * 3600) * 1000))\<bar>
      \<le> MAX_TIME"
    unfolding p v by (simp add: MAX_TIME_def)
  note t0 = createOrder_cash [of "cashRequest 0" exampleConfig "''66f1a0c2e4b0a1b2c3d4e5f8''"
      "''n5Qw_2''" 5000 5001 exampleStore 0]
  note t1 = createOrder_cash [of "cashRequest 15000" exampleConfig "''66f1a0c2e4b0a1b2c3d4e5f8''"
      "''n5Qw_2''" 5000 5001 exampleStore 15000 1000]
  note t2 = createOrder_cash [of "(cashRequest 15000)\<lparr>c_startTime := Some None\<rparr>" exampleConfig
      "''66f1a0c2e4b0a1b2c3d4e5f8''" "''n5Qw_2''" 5000 5001 exampleStore 15000]
  from t0 h0 have a: "createOrder exampleConfig ''66f1a0c2e4b0a1b2c3d4e5f8'' ''n5Qw_2'' 5000 5001
      (cashRequest 0) exampleStore = (Inl BadRequest, exampleStore)"
    by simp
  from t1 h1 s r have "\<exists>d. createOrder exampleConfig ''66f1a0c2e4b0a1b2c3d4e5f8'' ''n5Qw_2'' 5000 5001 (cashRequest 15000) exampleStore
          = (Inr d, \<lparr>orders = orders exampleStore @ [d], seq = seq exampleStore + 1\<rparr>) \<and>
        startTime d = 1000 \<and>
        endTime d = Some (1000
          + floor (fl (fl (fl (15000 / PRICE_PER_HOUR exampleConfig) * 3600) * 1000)))"
    by auto
  then have b: "\<exists>d. createOrder exampleConfig ''66f1a0c2e4b0a1b2c3d4e5f8'' ''n5Qw_2'' 5000 5001 (cashRequest 15000) exampleStore
          = (Inr d, \<lparr>orders = orders exampleStore @ [d], seq = seq exampleStore + 1\<rparr>) \<and>
        startTime d = 1000 \<and> endTime d = Some (1000 + 3600000)"
    unfolding p v by auto
  have c: "\<bar>15000 / PRICE_PER_HOUR exampleConfig * 3600000\<bar> \<le> 2 ^ 50"
    unfolding p by simp
  from t2 h2 n have e: "createOrder exampleConfig ''66f1a0c2e4b0a1b2c3d4e5f8'' ''n5Qw_2'' 5000 5001
       ((cashRequest 15000)\<lparr>c_startTime := Some None\<rparr>) exampleStore
     = (Inl ServerError, exampleStore)"
    by simp
  from h0 h1 s n r a b c e show ?thesis by blast
qed

text \<open>
  C6 as stated fails, in two ways.

  The duration is not exact. For \<open>amount = 9\<close> at 15000 per hour the doubles are \<open>0.0006\<close>,
  \<open>2.1599999999999997\<close> and \<open>2159.9999999999995\<close>, so the order ends 2159 ms after its
  start, while \<open>floor (9 / 15000 * 3600000)\<close> is 2160, in exact arithmetic and also when
  the quotient and that one product are taken in doubles. For \<open>amount = 65000\<close> the
  doubles are \<open>4.333333333333333\<close>, \<open>15599.999999999998\<close> and \<open>15599999.999999998\<close>, so
  the order ends 15599999 ms after its start, one less than
  \<open>floor (65000 / 15000 * 3600000)\<close>.

  Not every positive amount succeeds. For \<open>amount = 40000000000000\<close> the doubles are
  \<open>2666666666.6666665\<close>, \<open>9600000000000\<close> and \<open>9600000000000000\<close>; the end, 1000 ms
  later, is beyond the range of \<open>Date\<close>, and the request is answered with the server
  error and nothing is stored.
\<close>

theorem createOrder_cash_exact_counterexample:
  "PRICE_PER_HOUR exampleConfig = 15000 \<and>
   c_type (cashRequest 9) = Some ''cash'' \<and> c_amount (cashRequest 9) = Some 9 \<and>
   fst (createOrder exampleConfig ''66f1a0c2e4b0a1b2c3d4e5f8'' ''n5Qw_2'' 5000 5001
          (cashRequest 9) exampleStore)
     = Inr \<lparr>oid = ''66f1a0c2e4b0a1b2c3d4e5f8'', orderId = 10, externalId = ''n5Qw_2'',
            ps = ''PS2'', otype = ''cash'', startTime = 1000, endTime = Some (1000 + 2159),
            summa = 9, status = ''process'', createdAt = 5001, completedAt = None,
            deletedAt = None, prevStatus = None\<rparr> \<and>
   floor ((9::rat) / 15000 * 3600000) = 2160 \<and>
   floor (fl (fl (9 / 15000) * 3600000)) = 2160 \<and>
   c_type (cashRequest 65000) = Some ''cash'' \<and> c_amount (cashRequest 65000) = Some 65000 \<and>
   fst (createOrder exampleConfig ''66f1a0c2e4b0a1b2c3d4e5f8'' ''n5Qw_2'' 5000 5001
          (cashRequest 65000) exampleStore)
     = Inr \<lparr>oid = ''66f1a0c2e4b0a1b2c3d4e5f8'', orderId = 10, externalId = ''n5Qw_2'',
            ps = ''PS2'', otype = ''cash'', startTime = 1000, endTime = Some (1000 + 15599999),
            summa = 65000, status = ''process'', createdAt = 5001, completedAt = None,
            deletedAt = None, prevStatus = None\<rparr> \<and>
   floor ((65000::rat) / 15000 * 3600000) = 15600000 \<and>
   c_type (cashRequest 40000000000000) = Some ''cash'' \<and>
   c_amount (cashRequest 40000000000000) = Some 40000000000000 \<and>
   cashMs 15000 40000000000000 = 9600000000000000 \<and>
   createOrder exampleConfig ''66f1a0c2e4b0a1b2c3d4e5f8'' ''n5Qw_2'' 5000 5001
       (cashRequest 40000000000000) exampleStore
     = (Inl ServerError, exampleStore)"
proof -
  have a: "floor (fl (fl (9 / 15000) * 3600000)) = 2160"
    by (rule cashMs_9_one_product)
  have "MAX_TIME < \<bar>1000 + cashMs 15000 40000000000000\<bar>"
    by (simp add: cashMs_40000000000000 MAX_TIME_def)
  from newDate_sum_invalid [OF this]
  have b: "createOrder exampleConfig ''66f1a0c2e4b0a1b2c3d4e5f8'' ''n5Qw_2'' 5000 5001
       (cashRequest 40000000000000) exampleStore
     = (Inl ServerError, exampleStore)"
    by (simp add: createOrder_def cashRequest_def exampleConfig_def startDate_def Let_def)
  have "fst (createOrder exampleConfig ''66f1a0c2e4b0a1b2c3d4e5f8'' ''n5Qw_2'' 5000 5001
          (cashRequest 9) exampleStore)
     = Inr \<lparr>oid = ''66f1a0c2e4b0a1b2c3d4e5f8'', orderId = 10, externalId = ''n5Qw_2'',
            ps = ''PS2'', otype = ''cash'', startTime = 1000, endTime = Some (1000 + 2159),
            summa = 9, status = ''process'', createdAt = 5001, completedAt = None,
            deletedAt = None, prevStatus = None\<rparr>"
    using newDate_sum [of 1000 2159]
    by (simp add: createOrder_def cashRequest_def exampleConfig_def exampleStore_def typeEnum_def
        startDate_def cashMs_9 MAX_TIME_def Let_def)
  moreover have "fst (createOrder exampleConfig ''66f1a0c2e4b0a1b2c3d4e5f8'' ''n5Qw_2'' 5000 5001
          (cashRequest 65000) exampleStore)
     = Inr \<lparr>oid = ''66f1a0c2e4b0a1b2c3d4e5f8'', orderId = 10, externalId = ''n5Qw_2'',
            ps = ''PS2'', otype = ''cash'', startTime = 1000, endTime = Some (1000 + 15599999),
            summa = 65000, status = ''process'', createdAt = 5001, completedAt = None,
            deletedAt = None, prevStatus = None\<rparr>"
    using newDate_sum [of 1000 15599999]
    by (simp add: createOrder_def cashRequest_def exampleConfig_def exampleStore_def typeEnum_def
        startDate_def cashMs_65000 MAX_TIME_def Let_def)
  ultimately show ?thesis
    using a b by (simp add: cashRequest_def exampleConfig_def cashMs_40000000000000)
qed

subsection \<open>The store\<close>

lemma find_in_set: "find P xs = Some x \<Longrightarrow> x \<in> set xs"
  by (induction xs) (auto split: if_splits)

lemma findOrderByAnyId_in_store:
  "findOrderByAnyId cfg s st = Some d \<Longrightarrow> d \<in> set (orders st)"
  by (auto simp: findOrderByAnyId_def findById_def dest: find_in_set
      split: option.splits)

lemma find_map_preserve:
  "(\<forall>x\<in>set xs. P (f x) = P x) \<Longrightarrow> find P (map f xs) = map_option f (find P xs)"
  by (induction xs) auto

lemma distinct_oid_eq:
  "distinct (map oid xs) \<Longrightarrow> x \<in> set xs \<Longrightarrow> y \<in> set xs \<Longrightarrow> oid x = oid y \<Longrightarrow> x = y"
  by (induction xs) (auto simp: image_iff)

text \<open>
  Saving a changed copy of a stored document that keeps the three identifiers does not
  change which document a lookup resolves to.
\<close>

lemma find_saveOrder:
  assumes "distinct (map oid (orders st))" and "d \<in> set (orders st)" and "oid d' = oid d"
    and "P d' = P d"
  shows "find P (orders (saveOrder d' st))
           = map_option (\<lambda>x. if oid x = oid d then d' else x) (find P (orders st))"
proof -
  have "\<forall>x\<in>set (orders st). P (if oid x = oid d then d' else x) = P x"
    using assms distinct_oid_eq [OF assms(1) _ assms(2)] by auto
  then show ?thesis
    using assms(3) by (simp add: saveOrder_def find_map_preserve)
qed

lemma findOrderByAnyId_saveOrder:
  assumes "distinct (map oid (orders st))" and "d \<in> set (orders st)" and "sameKeys d' d"
  shows "findOrderByAnyId cfg s (saveOrder d' st)
           = map_option (\<lambda>x. if oid x = oid d then d' else x) (findOrderByAnyId cfg s st)"
proof -
  have k: "oid d' = oid d" "orderId d' = orderId d" "externalId d' = externalId d"
    using assms(3) by (simp_all add: sameKeys_def)
  have 1: "byPrimaryKey cfg s (saveOrder d' st)
      = map_option (\<lambda>x. if oid x = oid d then d' else x) (byPrimaryKey cfg s st)"
    unfolding byPrimaryKey_def using k by (intro find_saveOrder assms) simp_all
  have 2: "byOrderNumber cfg s (saveOrder d' st)
      = map_option (\<lambda>x. if oid x = oid d then d' else x) (byOrderNumber cfg s st)"
    unfolding byOrderNumber_def using k by (intro find_saveOrder assms) simp_all
  have 3: "byExternalId s (saveOrder d' st)
      = map_option (\<lambda>x. if oid x = oid d then d' else x) (byExternalId s st)"
    unfolding byExternalId_def using k by (intro find_saveOrder assms) simp_all
  show ?thesis
    unfolding findOrderByAnyId_lookupSpec lookupSpec_def 1 2 3
    by (cases "byPrimaryKey cfg s st"; cases "byOrderNumber cfg s st") simp_all
qed

lemma findOrderByAnyId_saved:
  assumes "distinct (map oid (orders st))" and "findOrderByAnyId cfg s st = Some d"
    and "sameKeys d' d"
  shows "findOrderByAnyId cfg s (saveOrder d' st) = Some d'"
  using findOrderByAnyId_saveOrder [OF assms(1) findOrderByAnyId_in_store [OF assms(2)] assms(3)]
    assms(2) by simp

lemma map_oid_replace:
  "map oid (map (\<lambda>x. if oid x = oid d then d else x) xs) = map oid xs"
  by (induction xs) auto

lemma distinct_saveOrder:
  "distinct (map oid (orders st)) \<Longrightarrow> distinct (map oid (orders (saveOrder d st)))"
  by (simp add: saveOrder_def map_oid_replace del: map_map)

lemma example_lookups:
  "findOrderByAnyId exampleConfig ''7'' exampleStore = Some exampleOrder"
  "findOrderByAnyId exampleConfig ''8'' exampleStore = Some lookalikeOrder"
  "findOrderByAnyId exampleConfig ''9'' exampleStore = Some trashedOrder"
  by (simp_all add: findOrderByAnyId_def exampleConfig_def exampleStore_def exampleOrder_def
      lookalikeOrder_def trashedOrder_def)

lemma example_distinct: "distinct (map oid (orders exampleStore))"
  by (simp add: exampleStore_def exampleOrder_def lookalikeOrder_def trashedOrder_def)

subsection \<open>Restore\<close>





subsection \<open>Complete\<close>

lemma completeOrder_found:
  "findOrderByAnyId cfg ident st = Some d \<Longrightarrow>
   completeOrder cfg now doneAt ident st =
     (Inr ((settle cfg now d)\<lparr>r_order :=
             (r_order (settle cfg now d))\<lparr>status := ''completed'', completedAt := Some doneAt\<rparr>\<rparr>),
      saveOrder ((r_order (settle cfg now d))\<lparr>status := ''completed'',
                   completedAt := Some doneAt\<rparr>) st)"
  by (simp add: completeOrder_def Let_def)

lemma settle_cash_early:
  "otype d = ''cash'' \<Longrightarrow> endTime d = Some e \<Longrightarrow> now < e \<Longrightarrow>
   settle cfg now d =
     \<lparr>r_order = d\<lparr>summa := oynaganSumma (PRICE_PER_HOUR cfg) (now - startTime d),
                    endTime := Some now\<rparr>,
      r_qaytish = jsSub (summa d) (oynaganSumma (PRICE_PER_HOUR cfg) (now - startTime d)),
      r_oynaganSumma = oynaganSumma (PRICE_PER_HOUR cfg) (now - startTime d),
      r_oynaganMinut = minutesOf (now - startTime d),
      r_qolganMinut = minutesOf (e - now)\<rparr>"
  by (simp add: settle_def Let_def)

lemma settle_cash_late:
  "otype d = ''cash'' \<Longrightarrow> endTime d = None \<or> (\<exists>e. endTime d = Some e \<and> e \<le> now) \<Longrightarrow>
   settle cfg now d =
     \<lparr>r_order = d, r_qaytish = 0,
      r_oynaganSumma = oynaganSumma (PRICE_PER_HOUR cfg) (now - startTime d),
      r_oynaganMinut = minutesOf (now - startTime d), r_qolganMinut = 0\<rparr>"
  by (auto simp: settle_def Let_def)

lemma settle_vip:
  "otype d = ''vip'' \<Longrightarrow>
   settle cfg now d =
     \<lparr>r_order = d\<lparr>summa := oynaganSumma (PRICE_PER_HOUR cfg) (now - startTime d),
                    endTime := Some now\<rparr>,
      r_qaytish = 0,
      r_oynaganSumma = oynaganSumma (PRICE_PER_HOUR cfg) (now - startTime d),
      r_oynaganMinut = minutesOf (now - startTime d), r_qolganMinut = 0\<rparr>"
  by (simp add: settle_def Let_def)

text \<open>
  C2 (amended). Completing a cash order that has an \<open>endTime\<close> answers with
  \<open>accrued = ceil (ceil (((now - startTime) / 3600000) * PRICE_PER_HOUR) / 1000) * 1000\<close>,
  where the two quotients and the two products are each rounded to the nearest double. Before
  \<open>endTime\<close> the refund is the old \<open>summa\<close> minus the accrued amount (rounded to a double:
  exact for a whole \<open>summa\<close>), the remaining minutes are \<open>floor ((endTime - now) / 60000)\<close>,
  and the order is saved with \<open>summa = accrued\<close> and \<open>endTime = now\<close>. At or after
  \<open>endTime\<close> the order is saved with its \<open>summa\<close> and \<open>endTime\<close> unchanged. In both cases it
  is saved as \<open>completed\<close>.
\<close>

theorem completeOrder_cash:
  assumes "findOrderByAnyId cfg ident st = Some d" and "otype d = ''cash''"
    and "endTime d = Some e" and "0 < summa d"
  shows "(\<exists>r. completeOrder cfg now doneAt ident st = (Inr r, saveOrder (r_order r) st) \<and>
            r_oynaganSumma r = oynaganSumma (PRICE_PER_HOUR cfg) (now - startTime d) \<and>
            status (r_order r) = ''completed'' \<and> completedAt (r_order r) = Some doneAt \<and>
            (now < e \<longrightarrow>
               r_qaytish r = fl (summa d - r_oynaganSumma r) \<and>
               (summa d = rat_of_int k \<and> \<bar>summa d - r_oynaganSumma r\<bar> \<le> 2 ^ 53 \<longrightarrow>
                  r_qaytish r = summa d - r_oynaganSumma r) \<and>
               (e - now < 2 ^ 53 \<longrightarrow>
                  r_qolganMinut r = floor (rat_of_int (e - now) / 60000)) \<and>
               r_order r = d\<lparr>summa := r_oynaganSumma r, endTime := Some now,
                              status := ''completed'', completedAt := Some doneAt\<rparr>) \<and>
            (e \<le> now \<longrightarrow>
               r_order r = d\<lparr>status := ''completed'', completedAt := Some doneAt\<rparr> \<and>
               summa (r_order r) = summa d \<and> endTime (r_order r) = endTime d)) \<and>
         oynaganSumma (PRICE_PER_HOUR cfg) (now - startTime d) =
           fl (rat_of_int (ceiling (fl (rat_of_int (ceiling (fl (fl (rat_of_int (now - startTime d)
                                                                   / 3600000)
                                                               * PRICE_PER_HOUR cfg)))
                                         / 1000)))
               * 1000)"
proof (rule conjI)
  show "oynaganSumma (PRICE_PER_HOUR cfg) (now - startTime d) =
           fl (rat_of_int (ceiling (fl (rat_of_int (ceiling (fl (fl (rat_of_int (now - startTime d)
                                                                   / 3600000)
                                                               * PRICE_PER_HOUR cfg)))
                                         / 1000)))
               * 1000)"
    by (rule oynaganSumma_formula)
  show "\<exists>r. completeOrder cfg now doneAt ident st = (Inr r, saveOrder (r_order r) st) \<and>
            r_oynaganSumma r = oynaganSumma (PRICE_PER_HOUR cfg) (now - startTime d) \<and>
            status (r_order r) = ''completed'' \<and> completedAt (r_order r) = Some doneAt \<and>
            (now < e \<longrightarrow>
               r_qaytish r = fl (summa d - r_oynaganSumma r) \<and>
               (summa d = rat_of_int k \<and> \<bar>summa d - r_oynaganSumma r\<bar> \<le> 2 ^ 53 \<longrightarrow>
                  r_qaytish r = summa d - r_oynaganSumma r) \<and>
               (e - now < 2 ^ 53 \<longrightarrow>
                  r_qolganMinut r = floor (rat_of_int (e - now) / 60000)) \<and>
               r_order r = d\<lparr>summa := r_oynaganSumma r, endTime := Some now,
                              status := ''completed'', completedAt := Some doneAt\<rparr>) \<and>
            (e \<le> now \<longrightarrow>
               r_order r = d\<lparr>status := ''completed'', completedAt := Some doneAt\<rparr> \<and>
               summa (r_order r) = summa d \<and> endTime (r_order r) = endTime d)"
  proof (cases "now < e")
    case True
    define s where "s = oynaganSumma (PRICE_PER_HOUR cfg) (now - startTime d)"
    from oynaganSumma_int [of "PRICE_PER_HOUR cfg" "now - startTime d"] obtain j
      where j: "s = rat_of_int j"
      unfolding s_def by blast
    have q: "summa d = rat_of_int k \<and> \<bar>summa d - s\<bar> \<le> 2 ^ 53 \<longrightarrow>
        fl (summa d - s) = summa d - s"
    proof
      assume a: "summa d = rat_of_int k \<and> \<bar>summa d - s\<bar> \<le> 2 ^ 53"
      then have "\<bar>rat_of_int k - rat_of_int j\<bar> \<le> 2 ^ 53"
        unfolding j by auto
      then have "rat_of_int \<bar>k - j\<bar> \<le> rat_of_int (2 ^ 53)"
        by simp
      then have "\<bar>k - j\<bar> \<le> 2 ^ 53"
        by (simp only: of_int_le_iff)
      from fl_of_int [OF this] a show "fl (summa d - s) = summa d - s"
        by (simp add: j)
    qed
    have m: "minutesOf (e - now) = floor (rat_of_int (e - now) / 60000)"
      if "e - now < 2 ^ 53"
      using that True by (intro minutesOf_exact) simp
    show ?thesis
      unfolding completeOrder_found [OF assms(1)] settle_cash_early [OF assms(2,3) True]
      using True q m by (simp add: jsSub_def s_def)
  next
    case False
    then have "endTime d = None \<or> (\<exists>e. endTime d = Some e \<and> e \<le> now)"
      using assms(3) by simp
    from settle_cash_late [OF assms(2) this] show ?thesis
      unfolding completeOrder_found [OF assms(1)]
      using False by simp
  qed
qed

theorem completeOrder_cash_witness:
  "findOrderByAnyId exampleConfig ''7'' exampleStore = Some exampleOrder \<and>
   otype exampleOrder = ''cash'' \<and> endTime exampleOrder = Some 7200000 \<and>
   summa exampleOrder = 30000 \<and> startTime exampleOrder = 0 \<and>
   PRICE_PER_HOUR exampleConfig = 15000 \<and>
   (\<exists>r. completeOrder exampleConfig 1800000 1800001 ''7'' exampleStore
           = (Inr r, saveOrder (r_order r) exampleStore) \<and>
        r_oynaganSumma r = 8000 \<and> r_qaytish r = 22000 \<and> r_qolganMinut r = 90 \<and>
        summa (r_order r) = 8000 \<and> endTime (r_order r) = Some 1800000) \<and>
   (\<exists>r. completeOrder exampleConfig 7200000 7200001 ''7'' exampleStore
           = (Inr r, saveOrder (r_order r) exampleStore) \<and>
        summa (r_order r) = 30000 \<and> endTime (r_order r) = Some 7200000)"
proof -
  have h: "otype exampleOrder = ''cash''" "endTime exampleOrder = Some 7200000"
    "0 < summa exampleOrder" "summa exampleOrder = 30000" "startTime exampleOrder = 0"
    "PRICE_PER_HOUR exampleConfig = 15000"
    by (simp_all add: exampleOrder_def exampleConfig_def)
  note t = completeOrder_cash [OF example_lookups(1) h(1,2,3), THEN conjunct1]
  from t [of 1800000 1800001 30000]
  have a: "\<exists>r. completeOrder exampleConfig 1800000 1800001 ''7'' exampleStore
           = (Inr r, saveOrder (r_order r) exampleStore) \<and>
        r_oynaganSumma r = 8000 \<and> r_qaytish r = 22000 \<and> r_qolganMinut r = 90 \<and>
        summa (r_order r) = 8000 \<and> endTime (r_order r) = Some 1800000"
    unfolding h(4,5,6) by (auto simp: oynaganSumma_examples)
  from t [of 7200000 7200001 30000]
  have b: "\<exists>r. completeOrder exampleConfig 7200000 7200001 ''7'' exampleStore
           = (Inr r, saveOrder (r_order r) exampleStore) \<and>
        summa (r_order r) = 30000 \<and> endTime (r_order r) = Some 7200000"
    by (auto simp: h)
  from a b h example_lookups(1) show ?thesis by blast
qed

text \<open>
  C2 as stated fails: completed 7440000 ms (two hours and four minutes) after its start,
  the cash order of the example store is answered with \<open>accrued = 32000\<close>, because the
  doubles are \<open>2.066666666666667\<close> and \<open>31000.000000000004\<close>; the formula of the claim
  gives 31000.
\<close>

theorem completeOrder_cash_accrued_counterexample:
  "findOrderByAnyId exampleConfig ''7'' exampleStore = Some exampleOrder \<and>
   otype exampleOrder = ''cash'' \<and> endTime exampleOrder = Some 7200000 \<and>
   summa exampleOrder = 30000 \<and> startTime exampleOrder = 0 \<and>
   PRICE_PER_HOUR exampleConfig = 15000 \<and>
   r_oynaganSumma (projr (fst (completeOrder exampleConfig 7440000 7440000 ''7'' exampleStore)))
     = 32000 \<and>
   rat_of_int (ceiling (rat_of_int (ceiling (rat_of_int (7440000 - 0) / 3600000 * (15000::rat)))
                          / 1000)) * 1000
     = (31000::rat)"
proof -
  have h: "otype exampleOrder = ''cash''" "endTime exampleOrder = Some 7200000"
    "summa exampleOrder = 30000" "startTime exampleOrder = 0"
    "PRICE_PER_HOUR exampleConfig = 15000"
    by (simp_all add: exampleOrder_def exampleConfig_def)
  have "r_oynaganSumma (projr (fst (completeOrder exampleConfig 7440000 7440000 ''7''
      exampleStore))) = 32000"
    unfolding completeOrder_found [OF example_lookups(1)]
    by (simp add: settle_def h oynaganSumma_7440000)
  then show ?thesis
    using h example_lookups(1) by simp
qed

lemma settle_sameKeys: "sameKeys (r_order (settle cfg now d)) d"
  by (simp add: settle_def sameKeys_def Let_def split: option.splits)

lemma settle_keeps:
  "otype (r_order (settle cfg now d)) = otype d"
  "startTime (r_order (settle cfg now d)) = startTime d"
  by (simp_all add: settle_def Let_def split: option.splits)

lemma settle_cash_endTime:
  "otype d = ''cash'' \<Longrightarrow>
   endTime (r_order (settle cfg now d)) = None \<or>
   (\<exists>e. endTime (r_order (settle cfg now d)) = Some e \<and> e \<le> now)"
  by (simp add: settle_def Let_def split: option.splits)

text \<open>
  C1 (amended). Complete does not look at the status. Called a second time on the same
  order, at a time not before the first call, it leaves \<open>summa\<close> and \<open>endTime\<close> of a cash
  order equal to their values after the first call. For a vip order the second call
  overwrites both: \<open>summa\<close> becomes the amount accrued from \<open>startTime\<close> to the second
  call and \<open>endTime\<close> the time of the second call.
\<close>

theorem completeOrder_second_call:
  assumes "distinct (map oid (orders st))" and "findOrderByAnyId cfg ident st = Some d"
  shows "\<exists>r1 r2. completeOrder cfg now1 done1 ident st = (Inr r1, saveOrder (r_order r1) st) \<and>
           status (r_order r1) = ''completed'' \<and>
           completeOrder cfg now2 done2 ident (saveOrder (r_order r1) st)
             = (Inr r2, saveOrder (r_order r2) (saveOrder (r_order r1) st)) \<and>
           (otype d = ''cash'' \<and> now1 \<le> now2 \<longrightarrow>
              summa (r_order r2) = summa (r_order r1) \<and>
              endTime (r_order r2) = endTime (r_order r1)) \<and>
           (otype d = ''vip'' \<longrightarrow>
              summa (r_order r2)
                = oynaganSumma (PRICE_PER_HOUR cfg) (now2 - startTime d) \<and>
              endTime (r_order r2) = Some now2)"
proof -
  let ?d1 = "(r_order (settle cfg now1 d))\<lparr>status := ''completed'', completedAt := Some done1\<rparr>"
  let ?r1 = "(settle cfg now1 d)\<lparr>r_order := ?d1\<rparr>"
  let ?st1 = "saveOrder ?d1 st"
  let ?d2 = "(r_order (settle cfg now2 ?d1))\<lparr>status := ''completed'', completedAt := Some done2\<rparr>"
  let ?r2 = "(settle cfg now2 ?d1)\<lparr>r_order := ?d2\<rparr>"
  have c1: "completeOrder cfg now1 done1 ident st = (Inr ?r1, saveOrder (r_order ?r1) st)"
    using completeOrder_found [OF assms(2)] by simp
  have "sameKeys ?d1 d"
    using settle_sameKeys [of cfg now1 d] by (simp add: sameKeys_def)
  then have "findOrderByAnyId cfg ident ?st1 = Some ?d1"
    by (rule findOrderByAnyId_saved [OF assms])
  then have c2: "completeOrder cfg now2 done2 ident (saveOrder (r_order ?r1) st)
      = (Inr ?r2, saveOrder (r_order ?r2) (saveOrder (r_order ?r1) st))"
    using completeOrder_found [of cfg ident ?st1 ?d1 now2 done2] by simp
  have cash: "summa (r_order ?r2) = summa (r_order ?r1) \<and> endTime (r_order ?r2) = endTime (r_order ?r1)"
    if "otype d = ''cash''" and "now1 \<le> now2"
  proof -
    have t: "otype ?d1 = ''cash''"
      using that(1) by (simp add: settle_keeps)
    have "endTime ?d1 = None \<or> (\<exists>e. endTime ?d1 = Some e \<and> e \<le> now2)"
      using settle_cash_endTime [OF that(1), of cfg now1] that(2) by auto
    from settle_cash_late [OF t this] show ?thesis by simp
  qed
  have vip: "summa (r_order ?r2)
                = oynaganSumma (PRICE_PER_HOUR cfg) (now2 - startTime d) \<and>
              endTime (r_order ?r2) = Some now2"
    if "otype d = ''vip''"
  proof -
    have t: "otype ?d1 = ''vip''"
      using that by (simp add: settle_keeps)
    have s: "startTime ?d1 = startTime d"
      by (simp add: settle_keeps)
    show ?thesis
      unfolding settle_vip [OF t] s by simp
  qed
  have "status (r_order ?r1) = ''completed''" by simp
  with c1 c2 cash vip show ?thesis by blast
qed

lemma firstComplete_value:
  "firstComplete =
     (Inr \<lparr>r_order = lookalikeOrder\<lparr>summa := 15000, endTime := Some 3600000,
                        status := ''completed'', completedAt := Some 3600000\<rparr>,
           r_qaytish = 0, r_oynaganSumma = 15000, r_oynaganMinut = 60, r_qolganMinut = 0\<rparr>,
      \<lparr>orders = [lookalikeOrder\<lparr>summa := 15000, endTime := Some 3600000,
                        status := ''completed'', completedAt := Some 3600000\<rparr>,
                  exampleOrder, trashedOrder], seq = 9\<rparr>)"
  unfolding firstComplete_def completeOrder_found [OF example_lookups(2)]
  by (simp add: settle_def oynaganSumma_examples minutesOf_examples saveOrder_def
      exampleConfig_def exampleStore_def exampleOrder_def lookalikeOrder_def trashedOrder_def)

lemma secondComplete_value:
  "fst secondComplete =
     Inr \<lparr>r_order = lookalikeOrder\<lparr>summa := 30000, endTime := Some 7200000,
                        status := ''completed'', completedAt := Some 7200000\<rparr>,
           r_qaytish = 0, r_oynaganSumma = 30000, r_oynaganMinut = 120, r_qolganMinut = 0\<rparr>"
  unfolding secondComplete_def firstComplete_value
  by (simp add: completeOrder_def findOrderByAnyId_def findById_def settle_def
      oynaganSumma_examples minutesOf_examples saveOrder_def exampleConfig_def Let_def
      exampleOrder_def lookalikeOrder_def trashedOrder_def)

theorem completeOrder_second_call_witness:
  "distinct (map oid (orders exampleStore)) \<and>
   findOrderByAnyId exampleConfig ''7'' exampleStore = Some exampleOrder \<and>
   otype exampleOrder = ''cash'' \<and> (1800000::int) \<le> 5400000 \<and>
   findOrderByAnyId exampleConfig ''8'' exampleStore = Some lookalikeOrder \<and>
   otype lookalikeOrder = ''vip'' \<and>
   (\<exists>r1 r2. completeOrder exampleConfig 1800000 1800000 ''7'' exampleStore
               = (Inr r1, saveOrder (r_order r1) exampleStore) \<and>
            completeOrder exampleConfig 5400000 5400000 ''7'' (saveOrder (r_order r1) exampleStore)
               = (Inr r2, saveOrder (r_order r2) (saveOrder (r_order r1) exampleStore)) \<and>
            summa (r_order r2) = summa (r_order r1) \<and>
            endTime (r_order r2) = endTime (r_order r1)) \<and>
   (\<exists>r1 r2. completeOrder exampleConfig 3600000 3600000 ''8'' exampleStore
               = (Inr r1, saveOrder (r_order r1) exampleStore) \<and>
            completeOrder exampleConfig 7200000 7200000 ''8'' (saveOrder (r_order r1) exampleStore)
               = (Inr r2, saveOrder (r_order r2) (saveOrder (r_order r1) exampleStore)) \<and>
            summa (r_order r2) = 30000 \<and> endTime (r_order r2) = Some 7200000)"
proof -
  have h: "otype exampleOrder = ''cash''" "otype lookalikeOrder = ''vip''"
    "startTime lookalikeOrder = 0" "PRICE_PER_HOUR exampleConfig = 15000"
    by (simp_all add: exampleOrder_def lookalikeOrder_def exampleConfig_def)
  have v: "oynaganSumma 15000 (7200000 - 0) = 30000"
    by (simp add: oynaganSumma_examples)
  from completeOrder_second_call [OF example_distinct example_lookups(1),
      of 1800000 1800000 5400000 5400000] h(1)
  have a: "\<exists>r1 r2. completeOrder exampleConfig 1800000 1800000 ''7'' exampleStore
               = (Inr r1, saveOrder (r_order r1) exampleStore) \<and>
            completeOrder exampleConfig 5400000 5400000 ''7'' (saveOrder (r_order r1) exampleStore)
               = (Inr r2, saveOrder (r_order r2) (saveOrder (r_order r1) exampleStore)) \<and>
            summa (r_order r2) = summa (r_order r1) \<and>
            endTime (r_order r2) = endTime (r_order r1)"
    by fastforce
  from completeOrder_second_call [OF example_distinct example_lookups(2),
      of 3600000 3600000 7200000 7200000] h(2,3,4) v
  have b: "\<exists>r1 r2. completeOrder exampleConfig 3600000 3600000 ''8'' exampleStore
               = (Inr r1, saveOrder (r_order r1) exampleStore) \<and>
            completeOrder exampleConfig 7200000 7200000 ''8'' (saveOrder (r_order r1) exampleStore)
               = (Inr r2, saveOrder (r_order r2) (saveOrder (r_order r1) exampleStore)) \<and>
            summa (r_order r2) = 30000 \<and> endTime (r_order r2) = Some 7200000"
    by fastforce
  from a b h example_distinct example_lookups show ?thesis by simp
qed

text \<open>
  C1 as stated fails for vip orders: the open vip order of the example store is completed
  one hour after its start (\<open>summa = 15000\<close>, \<open>endTime\<close> one hour); completing it again an
  hour later sets \<open>summa = 30000\<close> and \<open>endTime\<close> two hours.
\<close>

theorem completeOrder_twice_counterexample:
  "status (r_order (projr (fst firstComplete))) = ''completed'' \<and>
   summa (r_order (projr (fst firstComplete))) = 15000 \<and>
   endTime (r_order (projr (fst firstComplete))) = Some 3600000 \<and>
   summa (r_order (projr (fst secondComplete))) = 30000 \<and>
   endTime (r_order (projr (fst secondComplete))) = Some 7200000 \<and>
   summa (r_order (projr (fst secondComplete))) \<noteq> summa (r_order (projr (fst firstComplete))) \<and>
   endTime (r_order (projr (fst secondComplete))) \<noteq> endTime (r_order (projr (fst firstComplete)))"
  unfolding secondComplete_value firstComplete_value
  by simp

subsection \<open>Edit\<close>

lemma applyFields_otype: "otype (applyFields req d) = typeAfter req d"
  by (simp add: applyFields_def typeAfter_def Let_def split: option.splits)

lemma applyFields_summa: "summa (applyFields req d) = summa d"
  by (simp add: applyFields_def Let_def split: option.splits)

lemma editOrder_found:
  assumes "findOrderByAnyId cfg ident st = Some d" and "e_amount req = Some a"
  shows "editOrder cfg ident req st =
     (if typeAfter req d = ''vip'' \<and> summa d < a then (Inl BadRequest, st)
      else if typeAfter req d = ''cash'' \<and> a \<le> 0 then (Inl BadRequest, st)
      else finishEdit req
             (if typeAfter req d = ''cash''
              then (applyFields req d)\<lparr>summa := a,
                     endTime := Some (startTime (applyFields req d) + cashMs (PRICE_PER_HOUR cfg) a)\<rparr>
              else (applyFields req d)\<lparr>summa := a, endTime := None\<rparr>) st)"
  using assms by (simp add: editOrder_def Let_def applyFields_otype applyFields_summa)




lemma finishEdit_error:
  "fst (finishEdit req d st) = Inl e \<Longrightarrow> snd (finishEdit req d st) = st"
  by (auto simp: finishEdit_def Let_def split: if_splits)

lemma editOrder_error:
  "fst (editOrder cfg ident req st) = Inl e \<Longrightarrow> snd (editOrder cfg ident req st) = st"
  by (auto simp: editOrder_def Let_def dest: finishEdit_error split: option.splits if_splits)

text \<open>
  C10. When the amount of an edit request is rejected (the type the check sees is vip and
  the amount is above the stored \<open>summa\<close>, or that type is cash and the amount is not
  positive), the answer is the validation error and the store is the one before the
  request: the \<open>ps\<close>, \<open>type\<close> and \<open>startTime\<close> of the request are not saved. More
  generally, whenever edit answers with an error the store is the one before the request.
\<close>

theorem editOrder_rejected_saves_nothing:
  "(fst (editOrder cfg ident req st) = Inl e \<longrightarrow> snd (editOrder cfg ident req st) = st) \<and>
   (findOrderByAnyId cfg ident st = Some d \<and> e_amount req = Some a \<and>
    ((typeAfter req d = ''vip'' \<and> summa d < a) \<or> (typeAfter req d = ''cash'' \<and> a \<le> 0))
    \<longrightarrow> editOrder cfg ident req st = (Inl BadRequest, st))"
proof (intro conjI impI)
  assume "fst (editOrder cfg ident req st) = Inl e"
  then show "snd (editOrder cfg ident req st) = st"
    by (rule editOrder_error)
next
  assume h: "findOrderByAnyId cfg ident st = Some d \<and> e_amount req = Some a \<and>
    ((typeAfter req d = ''vip'' \<and> summa d < a) \<or> (typeAfter req d = ''cash'' \<and> a \<le> 0))"
  then have "findOrderByAnyId cfg ident st = Some d" and "e_amount req = Some a"
    by simp_all
  from editOrder_found [OF this] h show "editOrder cfg ident req st = (Inl BadRequest, st)"
    by auto
qed

theorem editOrder_rejected_saves_nothing_witness:
  "findOrderByAnyId exampleConfig ''8'' exampleStore = Some lookalikeOrder \<and>
   e_amount (editRequest ''vip'' 25000) = Some 25000 \<and>
   typeAfter (editRequest ''vip'' 25000) lookalikeOrder = ''vip'' \<and> summa lookalikeOrder < 25000 \<and>
   e_ps (editRequest ''vip'' 25000) = Some ''PS9'' \<and> ps lookalikeOrder = ''PS3'' \<and>
   editOrder exampleConfig ''8'' (editRequest ''vip'' 25000) exampleStore
     = (Inl BadRequest, exampleStore) \<and>
   findOrderByAnyId exampleConfig ''7'' exampleStore = Some exampleOrder \<and>
   e_amount (editRequest ''cash'' 0) = Some 0 \<and>
   typeAfter (editRequest ''cash'' 0) exampleOrder = ''cash'' \<and>
   editOrder exampleConfig ''7'' (editRequest ''cash'' 0) exampleStore
     = (Inl BadRequest, exampleStore)"
proof -
  have h: "e_amount (editRequest t a) = Some a" "typeAfter (editRequest ''vip'' a) d = ''vip''"
    "typeAfter (editRequest ''cash'' a) d = ''cash''" "summa lookalikeOrder < 25000"
    "e_ps (editRequest t a) = Some ''PS9''" "ps lookalikeOrder = ''PS3''" for t a d
    by (simp_all add: editRequest_def typeAfter_def truthy_def lookalikeOrder_def)
  from editOrder_rejected_saves_nothing
    [of exampleConfig "''8''" "editRequest ''vip'' 25000" exampleStore BadRequest lookalikeOrder 25000]
    example_lookups(2) h(1,2,4)
  have a: "editOrder exampleConfig ''8'' (editRequest ''vip'' 25000) exampleStore
     = (Inl BadRequest, exampleStore)"
    by simp
  from editOrder_rejected_saves_nothing
    [of exampleConfig "''7''" "editRequest ''cash'' 0" exampleStore BadRequest exampleOrder 0]
    example_lookups(1) h(1,3)
  have b: "editOrder exampleConfig ''7'' (editRequest ''cash'' 0) exampleStore
     = (Inl BadRequest, exampleStore)"
    by simp
  from a b h example_lookups show ?thesis by simp
qed

subsection \<open>The sweeper\<close>

lemma seq_saveOrder [simp]: "seq (saveOrder d st) = seq st"
  by (simp add: saveOrder_def)

lemma foldl_saveOrder_seq:
  "seq (foldl (\<lambda>s d. saveOrder (f d) s) st xs) = seq st"
  by (induction xs arbitrary: st) simp_all

lemma foldl_saveOrder_orders:
  assumes "distinct (map oid (orders st))" and "set xs \<subseteq> set (orders st)"
    and "\<And>d. oid (f d) = oid d"
  shows "orders (foldl (\<lambda>s d. saveOrder (f d) s) st xs)
           = map (\<lambda>x. if x \<in> set xs then f x else x) (orders st)"
  using assms(2)
proof (induction xs rule: rev_induct)
  case Nil
  show ?case by simp
next
  case (snoc d xs)
  then have d: "d \<in> set (orders st)" and sub: "set xs \<subseteq> set (orders st)"
    by simp_all
  have same: "x = d" if "x \<in> set (orders st)" and "oid x = oid d" for x
    using distinct_oid_eq [OF assms(1) that(1) d that(2)] .
  have "orders (foldl (\<lambda>s d. saveOrder (f d) s) st (xs @ [d]))
          = map (\<lambda>x. if oid x = oid d then f d else x)
              (map (\<lambda>x. if x \<in> set xs then f x else x) (orders st))"
    using snoc.IH [OF sub] by (simp add: saveOrder_def assms(3))
  also have "\<dots> = map (\<lambda>x. if x \<in> set (xs @ [d]) then f x else x) (orders st)"
    using same by (auto simp: assms(3))
  finally show ?case .
qed

lemma sweep_orders:
  assumes "distinct (map oid (orders st))"
  shows "orders (sweep now st)
           = map (\<lambda>d. if expired now d then autoComplete now d else d) (orders st)"
proof -
  have "orders (sweep now st)
          = map (\<lambda>x. if x \<in> set (filter (expired now) (orders st)) then autoComplete now x else x)
              (orders st)"
    unfolding sweep_def
    by (rule foldl_saveOrder_orders [OF assms]) (simp_all add: autoComplete_def)
  also have "\<dots> = map (\<lambda>d. if expired now d then autoComplete now d else d) (orders st)"
    by simp
  finally show ?thesis .
qed

lemma findById_sweep:
  assumes "distinct (map oid (orders st))" and "d \<in> set (orders st)"
  shows "findById (oid d) (sweep now st)
           = Some (if expired now d then autoComplete now d else d)"
proof -
  have "find (\<lambda>x. oid x = oid d)
          (map (\<lambda>d. if expired now d then autoComplete now d else d) (orders st))
        = map_option (\<lambda>d. if expired now d then autoComplete now d else d)
            (find (\<lambda>x. oid x = oid d) (orders st))"
    by (rule find_map_preserve) (simp add: autoComplete_def)
  then show ?thesis
    using find_distinct_key [OF assms] by (simp add: findById_def sweep_orders [OF assms(1)])
qed

text \<open>
  C7. One run of the sweeper rewrites exactly the matched orders (status \<open>process\<close>, type
  \<open>cash\<close>, \<open>endTime \<le> now\<close>): each is stored with \<open>status = completed\<close> and
  \<open>completedAt = now\<close> and with every other field, in particular \<open>summa\<close> and \<open>endTime\<close>,
  as before. The other orders and the counter are as before.
\<close>

theorem sweep_completes_expired:
  assumes "distinct (map oid (orders st))"
  shows "orders (sweep now st)
           = map (\<lambda>d. if expired now d
                      then d\<lparr>status := ''completed'', completedAt := Some now\<rparr> else d)
               (orders st) \<and>
         seq (sweep now st) = seq st \<and>
         (\<forall>d\<in>set (orders st). expired now d \<longrightarrow>
            (\<exists>d'. findById (oid d) (sweep now st) = Some d' \<and>
                  d' = d\<lparr>status := ''completed'', completedAt := Some now\<rparr> \<and>
                  status d' = ''completed'' \<and> completedAt d' = Some now \<and>
                  summa d' = summa d \<and> endTime d' = endTime d))"
proof (intro conjI ballI impI)
  show "orders (sweep now st)
           = map (\<lambda>d. if expired now d
                      then d\<lparr>status := ''completed'', completedAt := Some now\<rparr> else d)
               (orders st)"
    using sweep_orders [OF assms, of now] by (simp add: autoComplete_def)
  show "seq (sweep now st) = seq st"
    by (simp add: sweep_def foldl_saveOrder_seq)
next
  fix d
  assume "d \<in> set (orders st)" and "expired now d"
  then have "findById (oid d) (sweep now st)
      = Some (d\<lparr>status := ''completed'', completedAt := Some now\<rparr>)"
    using findById_sweep [OF assms, of d now] by (simp add: autoComplete_def)
  then show "\<exists>d'. findById (oid d) (sweep now st) = Some d' \<and>
                  d' = d\<lparr>status := ''completed'', completedAt := Some now\<rparr> \<and>
                  status d' = ''completed'' \<and> completedAt d' = Some now \<and>
                  summa d' = summa d \<and> endTime d' = endTime d"
    by simp
qed

theorem sweep_completes_expired_witness:
  "distinct (map oid (orders exampleStore)) \<and>
   exampleOrder \<in> set (orders exampleStore) \<and> expired 7200000 exampleOrder \<and>
   \<not> expired 7200000 lookalikeOrder \<and> \<not> expired 7200000 trashedOrder \<and>
   orders (sweep 7200000 exampleStore)
     = [lookalikeOrder, exampleOrder\<lparr>status := ''completed'', completedAt := Some 7200000\<rparr>,
        trashedOrder] \<and>
   findById (oid exampleOrder) (sweep 7200000 exampleStore)
     = Some (exampleOrder\<lparr>status := ''completed'', completedAt := Some 7200000\<rparr>)"
proof -
  have e: "exampleOrder \<in> set (orders exampleStore)" "expired 7200000 exampleOrder"
    "\<not> expired 7200000 lookalikeOrder" "\<not> expired 7200000 trashedOrder"
    by (simp_all add: exampleStore_def expired_def exampleOrder_def lookalikeOrder_def
        trashedOrder_def)
  note t = sweep_completes_expired [OF example_distinct, of 7200000]
  from t e have a: "orders (sweep 7200000 exampleStore)
     = [lookalikeOrder, exampleOrder\<lparr>status := ''completed'', completedAt := Some 7200000\<rparr>,
        trashedOrder]"
    by (simp add: exampleStore_def)
  from t e(1,2) have b: "findById (oid exampleOrder) (sweep 7200000 exampleStore)
     = Some (exampleOrder\<lparr>status := ''completed'', completedAt := Some 7200000\<rparr>)"
    by blast
  from a b e example_distinct show ?thesis by simp
qed

subsection \<open>The chunked sender\<close>

lemma trimTruthy_Nil [simp]: "\<not> trimTruthy []"
  by (simp add: trimTruthy_def)

lemma chunkLoop_content:
  "\<exists>dropped. concat (chunkLoop lines chunk) @ dropped = chunk @ terminated lines \<and>
             \<not> trimTruthy dropped"
proof (induction lines arbitrary: chunk)
  case Nil
  show ?case
  proof (cases "trimTruthy chunk")
    case True
    then have "concat (chunkLoop [] chunk) @ [] = chunk @ terminated [] \<and> \<not> trimTruthy []"
      by (simp add: terminated_def)
    then show ?thesis by blast
  next
    case False
    then have "concat (chunkLoop [] chunk) @ chunk = chunk @ terminated [] \<and> \<not> trimTruthy chunk"
      by (simp add: terminated_def)
    then show ?thesis by blast
  qed
next
  case (Cons line rest)
  show ?case
  proof (cases "length (chunk @ line @ [10]) > MAX_chars")
    case True
    from Cons.IH [of "line @ [10]"] obtain dropped
      where "concat (chunkLoop rest (line @ [10])) @ dropped = (line @ [10]) @ terminated rest"
        and "\<not> trimTruthy dropped"
      by blast
    with True have "concat (chunkLoop (line # rest) chunk) @ dropped
        = chunk @ terminated (line # rest) \<and> \<not> trimTruthy dropped"
      by (simp add: terminated_def)
    then show ?thesis by blast
  next
    case False
    from Cons.IH [of "chunk @ line @ [10]"] obtain dropped
      where "concat (chunkLoop rest (chunk @ line @ [10])) @ dropped
          = (chunk @ line @ [10]) @ terminated rest"
        and "\<not> trimTruthy dropped"
      by blast
    with False have "concat (chunkLoop (line # rest) chunk) @ dropped
        = chunk @ terminated (line # rest) \<and> \<not> trimTruthy dropped"
      by (simp add: terminated_def)
    then show ?thesis by blast
  qed
qed

lemma chunkLoop_bounded:
  "length chunk \<le> MAX_chars \<Longrightarrow> \<forall>line\<in>set lines. length line < MAX_chars \<Longrightarrow>
   \<forall>m\<in>set (chunkLoop lines chunk). length m \<le> MAX_chars"
proof (induction lines arbitrary: chunk)
  case Nil
  then show ?case by simp
next
  case (Cons line rest)
  from Cons.prems(2) have l: "length (line @ [10]) \<le> MAX_chars"
    and r: "\<forall>line\<in>set rest. length line < MAX_chars"
    by simp_all
  show ?case
  proof (cases "length (chunk @ line @ [10]) > MAX_chars")
    case True
    with Cons.IH [OF l r] Cons.prems(1) show ?thesis by simp
  next
    case False
    then have "length (chunk @ line @ [10]) \<le> MAX_chars" by simp
    from Cons.IH [OF this r] False show ?thesis by simp
  qed
qed

lemma chunkLoop_head:
  "chunkLoop lines chunk = m # ms \<Longrightarrow> take (length chunk) m = chunk"
proof (induction lines arbitrary: chunk)
  case Nil
  then show ?case by (simp split: if_splits)
next
  case (Cons line rest)
  show ?case
  proof (cases "length (chunk @ line @ [10]) > MAX_chars")
    case True
    with Cons.prems show ?thesis by simp
  next
    case False
    with Cons.prems have "chunkLoop rest (chunk @ line @ [10]) = m # ms" by simp
    from Cons.IH [OF this] have "take (length chunk) (take (length (chunk @ line @ [10])) m)
        = take (length chunk) (chunk @ line @ [10])"
      by simp
    then show ?thesis by (simp add: min_def)
  qed
qed

text \<open>The sender against the split of the specification.\<close>

lemma foldl_appendLine_prefix:
  "foldl appendLine (pre @ [chunk]) lines = pre @ foldl appendLine [chunk] lines"
proof (induction lines arbitrary: pre chunk)
  case Nil
  show ?case by simp
next
  case (Cons line rest)
  show ?case
  proof (cases "MAX_chars < length chunk + length line + 1")
    case True
    then have "foldl appendLine (pre @ [chunk]) (line # rest)
        = foldl appendLine ((pre @ [chunk]) @ [line @ [10]]) rest"
      by (simp add: appendLine_def)
    also have "\<dots> = (pre @ [chunk]) @ foldl appendLine [line @ [10]] rest"
      by (rule Cons.IH)
    also have "\<dots> = pre @ foldl appendLine ([chunk] @ [line @ [10]]) rest"
      unfolding Cons.IH [of "[chunk]"] by simp
    also have "\<dots> = pre @ foldl appendLine [chunk] (line # rest)"
      using True by (simp add: appendLine_def)
    finally show ?thesis .
  next
    case False
    then have "foldl appendLine (pre @ [chunk]) (line # rest)
        = foldl appendLine (pre @ [chunk @ line @ [10]]) rest"
      by (simp add: appendLine_def)
    also have "\<dots> = pre @ foldl appendLine [chunk @ line @ [10]] rest"
      by (rule Cons.IH)
    also have "\<dots> = pre @ foldl appendLine [chunk] (line # rest)"
      using False by (simp add: appendLine_def)
    finally show ?thesis .
  qed
qed

lemma foldl_appendLine_step:
  "foldl appendLine [chunk] (line # rest) =
     (if MAX_chars < length chunk + length line + 1
      then chunk # foldl appendLine [line @ [10]] rest
      else foldl appendLine [chunk @ line @ [10]] rest)"
  using foldl_appendLine_prefix [of "[chunk]" "line @ [10]" rest]
  by (simp add: appendLine_def)

lemma foldl_appendLine_nonempty: "foldl appendLine [chunk] lines \<noteq> []"
  by (induction lines arbitrary: chunk) (simp_all add: foldl_appendLine_step del: foldl_Cons)

lemma foldl_appendLine_concat:
  "concat (foldl appendLine [chunk] lines) = chunk @ terminated lines"
  by (induction lines arbitrary: chunk)
    (simp_all add: foldl_appendLine_step terminated_def del: foldl_Cons)

lemma chunkLoop_chunks:
  "chunkLoop lines chunk =
     (if trimTruthy (last (foldl appendLine [chunk] lines))
      then foldl appendLine [chunk] lines else butlast (foldl appendLine [chunk] lines))"
proof (induction lines arbitrary: chunk)
  case Nil
  show ?case by simp
next
  case (Cons line rest)
  show ?case
  proof (cases "MAX_chars < length chunk + length line + 1")
    case True
    have n: "foldl appendLine [line @ [10]] rest \<noteq> []"
      by (rule foldl_appendLine_nonempty)
    from True have "chunkLoop (line # rest) chunk = chunk # chunkLoop rest (line @ [10])"
      by simp
    also have "\<dots> = chunk #
        (if trimTruthy (last (foldl appendLine [line @ [10]] rest))
         then foldl appendLine [line @ [10]] rest
         else butlast (foldl appendLine [line @ [10]] rest))"
      by (simp only: Cons.IH)
    finally show ?thesis
      unfolding foldl_appendLine_step using True n by simp
  next
    case False
    then have "chunkLoop (line # rest) chunk = chunkLoop rest (chunk @ line @ [10])"
      by simp
    then show ?thesis
      unfolding foldl_appendLine_step using False by (simp only: Cons.IH if_False)
  qed
qed

lemma chunkLoop_fits:
  "length (chunk @ terminated lines) \<le> MAX_chars \<Longrightarrow>
   chunkLoop lines chunk =
     (if trimTruthy (chunk @ terminated lines) then [chunk @ terminated lines] else [])"
proof (induction lines arbitrary: chunk)
  case Nil
  show ?case by (simp add: terminated_def)
next
  case (Cons line rest)
  from Cons.prems have f: "\<not> MAX_chars < length (chunk @ line @ [10])"
    and r: "length ((chunk @ line @ [10]) @ terminated rest) \<le> MAX_chars"
    by (simp_all add: terminated_def)
  from Cons.IH [OF r] f show ?case
    by (simp add: terminated_def)
qed

text \<open>
  C9 (amended). When every line is shorter than 4000 code units and the title header is
  at most 4000 long, every text sent is at most 4000 long. For all lines and titles:
  the texts sent, concatenated in order and followed by a last chunk that is dropped
  when it is all white space, are the header followed by every line with its newline;
  the loop flushes the chunk exactly when the chunk with the next line and its newline
  would be longer than 4000; and the first text sent starts with the header. The texts
  sent are the chunks of the split of the specification, in order, without the last
  chunk when that one is all white space; the chunks together are the header followed by
  every line with its newline. In particular, when header and lines fit into one chunk,
  that chunk is the one text sent, and no text is sent when it is all white space.
\<close>

theorem sendToTelegramChunks_budget:
  "(length (header title) \<le> MAX_chars \<and> (\<forall>line\<in>set lines. length line < MAX_chars) \<longrightarrow>
      (\<forall>m\<in>set (sendToTelegramChunks lines title). length m \<le> MAX_chars)) \<and>
   (\<exists>dropped. concat (sendToTelegramChunks lines title) @ dropped
                 = header title @ terminated lines \<and> \<not> trimTruthy dropped) \<and>
   chunkLoop (line # rest) chunk =
     (if MAX_chars < length chunk + length line + 1
      then chunk # chunkLoop rest (line @ [10]) else chunkLoop rest (chunk @ line @ [10])) \<and>
   (sendToTelegramChunks lines title \<noteq> [] \<longrightarrow>
      take (length (header title)) (hd (sendToTelegramChunks lines title)) = header title) \<and>
   sendToTelegramChunks lines title =
     (if trimTruthy (last (chunksSpec lines title))
      then chunksSpec lines title else butlast (chunksSpec lines title)) \<and>
   chunksSpec lines title \<noteq> [] \<and>
   concat (chunksSpec lines title) = header title @ terminated lines \<and>
   (length (header title @ terminated lines) \<le> MAX_chars \<longrightarrow>
      sendToTelegramChunks lines title =
        (if trimTruthy (header title @ terminated lines)
         then [header title @ terminated lines] else []))"
proof (intro conjI impI)
  assume "length (header title) \<le> MAX_chars \<and> (\<forall>line\<in>set lines. length line < MAX_chars)"
  then show "\<forall>m\<in>set (sendToTelegramChunks lines title). length m \<le> MAX_chars"
    unfolding sendToTelegramChunks_def using chunkLoop_bounded by blast
next
  show "\<exists>dropped. concat (sendToTelegramChunks lines title) @ dropped
                 = header title @ terminated lines \<and> \<not> trimTruthy dropped"
    unfolding sendToTelegramChunks_def by (rule chunkLoop_content)
next
  show "chunkLoop (line # rest) chunk =
     (if MAX_chars < length chunk + length line + 1
      then chunk # chunkLoop rest (line @ [10]) else chunkLoop rest (chunk @ line @ [10]))"
    by simp
next
  assume "sendToTelegramChunks lines title \<noteq> []"
  then obtain m ms where "chunkLoop lines (header title) = m # ms"
    unfolding sendToTelegramChunks_def by (cases "chunkLoop lines (header title)") auto
  from chunkLoop_head [OF this] this
  show "take (length (header title)) (hd (sendToTelegramChunks lines title)) = header title"
    by (simp add: sendToTelegramChunks_def)
next
  show "sendToTelegramChunks lines title =
     (if trimTruthy (last (chunksSpec lines title))
      then chunksSpec lines title else butlast (chunksSpec lines title))"
    unfolding sendToTelegramChunks_def chunksSpec_def by (rule chunkLoop_chunks)
next
  show "chunksSpec lines title \<noteq> []"
    unfolding chunksSpec_def by (rule foldl_appendLine_nonempty)
next
  show "concat (chunksSpec lines title) = header title @ terminated lines"
    unfolding chunksSpec_def by (rule foldl_appendLine_concat)
next
  assume "length (header title @ terminated lines) \<le> MAX_chars"
  then show "sendToTelegramChunks lines title =
        (if trimTruthy (header title @ terminated lines)
         then [header title @ terminated lines] else [])"
    unfolding sendToTelegramChunks_def by (rule chunkLoop_fits)
qed

lemma chunks_example:
  "sendToTelegramChunks [replicate 3990 97, [98, 99]] [84] =
     [[60, 98, 62, 84, 60, 47, 98, 62, 10] @ replicate 3990 97 @ [10], [98, 99, 10]]"
  by (simp add: sendToTelegramChunks_def header_def MAX_chars_def trimTruthy_def jsWhite_def
      list_ex_iff)

theorem sendToTelegramChunks_budget_witness:
  "length (header [84]) \<le> MAX_chars \<and>
   length (replicate 3990 (97::nat)) < MAX_chars \<and> length [98, 99::nat] < MAX_chars \<and>
   sendToTelegramChunks [replicate 3990 97, [98, 99]] [84] =
     [[60, 98, 62, 84, 60, 47, 98, 62, 10] @ replicate 3990 97 @ [10], [98, 99, 10]] \<and>
   length ([60, 98, 62, 84, 60, 47, 98, 62, 10] @ replicate 3990 (97::nat) @ [10]) \<le> MAX_chars \<and>
   length [98, 99, 10::nat] \<le> MAX_chars \<and>
   take (length (header [84])) (hd (sendToTelegramChunks [replicate 3990 97, [98, 99]] [84]))
     = header [84] \<and>
   length (header [] @ terminated [[32], []]) \<le> MAX_chars \<and>
   \<not> trimTruthy (header [] @ terminated [[32], []]) \<and>
   sendToTelegramChunks [[32], []] [] = [] \<and>
   length (header [84] @ terminated [[98, 99]]) \<le> MAX_chars \<and>
   trimTruthy (header [84] @ terminated [[98, 99]]) \<and>
   sendToTelegramChunks [[98, 99]] [84] = [[60, 98, 62, 84, 60, 47, 98, 62, 10, 98, 99, 10]]"
proof -
  have h: "length (header [84]) \<le> MAX_chars"
    "length (replicate 3990 (97::nat)) < MAX_chars" "length [98, 99::nat] < MAX_chars"
    by (simp_all add: header_def MAX_chars_def)
  have n: "sendToTelegramChunks [replicate 3990 97, [98, 99]] [84] \<noteq> []"
    by (simp add: chunks_example)
  have w: "length (header [] @ terminated [[32], []]) \<le> MAX_chars"
    "\<not> trimTruthy (header [] @ terminated [[32], []])"
    by (simp_all add: header_def terminated_def MAX_chars_def trimTruthy_def jsWhite_def)
  have o: "length (header [84] @ terminated [[98, 99]]) \<le> MAX_chars"
    "trimTruthy (header [84] @ terminated [[98, 99]])"
    "header [84] @ terminated [[98, 99]] = [60, 98, 62, 84, 60, 47, 98, 62, 10, 98, 99, 10]"
    by (simp_all add: header_def terminated_def MAX_chars_def trimTruthy_def jsWhite_def)
  note t = sendToTelegramChunks_budget [of "[84]" "[replicate 3990 97, [98, 99]]"]
  from t h have "\<forall>m\<in>set (sendToTelegramChunks [replicate 3990 97, [98, 99]] [84]).
      length m \<le> MAX_chars"
    by simp
  then have a:
    "length ([60, 98, 62, 84, 60, 47, 98, 62, 10] @ replicate 3990 (97::nat) @ [10]) \<le> MAX_chars"
    "length [98, 99, 10::nat] \<le> MAX_chars"
    unfolding chunks_example by simp_all
  from t n have b: "take (length (header [84]))
      (hd (sendToTelegramChunks [replicate 3990 97, [98, 99]] [84])) = header [84]"
    by blast
  from sendToTelegramChunks_budget [of "[]" "[[32], []]"]
  have "length (header [] @ terminated [[32], []]) \<le> MAX_chars \<longrightarrow>
      sendToTelegramChunks [[32], []] [] =
        (if trimTruthy (header [] @ terminated [[32], []])
         then [header [] @ terminated [[32], []]] else [])"
    by blast
  with w have c: "sendToTelegramChunks [[32], []] [] = []"
    by simp
  from sendToTelegramChunks_budget [of "[84]" "[[98, 99]]"]
  have "length (header [84] @ terminated [[98, 99]]) \<le> MAX_chars \<longrightarrow>
      sendToTelegramChunks [[98, 99]] [84] =
        (if trimTruthy (header [84] @ terminated [[98, 99]])
         then [header [84] @ terminated [[98, 99]]] else [])"
    by blast
  with o(1,2) have "sendToTelegramChunks [[98, 99]] [84] = [header [84] @ terminated [[98, 99]]]"
    by simp
  then have d: "sendToTelegramChunks [[98, 99]] [84]
      = [[60, 98, 62, 84, 60, 47, 98, 62, 10, 98, 99, 10]]"
    unfolding o(3) .
  from h a b c d w o(1,2) chunks_example show ?thesis by blast
qed

text \<open>
  C9 as stated fails: for a single line of 4000 code units and no title the sender first
  hands over the empty chunk and then a text of 4001 code units.
\<close>

theorem sendToTelegramChunks_long_line_counterexample:
  "sendToTelegramChunks [replicate 4000 97] [] = [[], replicate 4000 97 @ [10]] \<and>
   length (replicate 4000 (97::nat) @ [10]) = 4001 \<and>
   \<not> length (replicate 4000 (97::nat) @ [10]) \<le> 4000"
  by (simp add: sendToTelegramChunks_def header_def MAX_chars_def trimTruthy_def jsWhite_def
      list_ex_iff)

subsection \<open>The accrued amount of vip orders\<close>

text \<open>
  C3 (amended). The accrued amount of lines 287-289 and 439-441 is an integer multiple of
  1000 whenever it is at most \<open>2^53\<close> in magnitude, which it is whenever the exact
  amount, hours times price, is at most \<open>2^52\<close> in magnitude. For every \<open>startTime\<close>,
  \<open>now\<close> and price it is non-negative when \<open>now\<close> is not before \<open>startTime\<close> and the
  price is positive. It is the \<open>summa\<close> that complete stores for a vip order and the
  \<open>summa\<close> that the daily report shows for an open vip order.
\<close>

theorem vip_accrued_multiple_of_1000:
  "(\<bar>oynaganSumma p (now - start)\<bar> \<le> 2 ^ 53 \<longrightarrow>
      (\<exists>k. oynaganSumma p (now - start) = rat_of_int k * 1000)) \<and>
   (\<bar>rat_of_int (now - start) / 3600000 * p\<bar> \<le> 2 ^ 52 \<longrightarrow>
      \<bar>oynaganSumma p (now - start)\<bar> < 2 ^ 53) \<and>
   (start \<le> now \<and> 0 < p \<longrightarrow> 0 \<le> oynaganSumma p (now - start)) \<and>
   (otype d = ''vip'' \<longrightarrow>
      summa (r_order (settle cfg now d))
        = oynaganSumma (PRICE_PER_HOUR cfg) (now - startTime d)) \<and>
   (status d = ''process'' \<and> otype d = ''vip'' \<longrightarrow>
      summa (fst (reportOverlay cfg now d))
        = oynaganSumma (PRICE_PER_HOUR cfg) (now - startTime d))"
  using oynaganSumma_multiple [of p "now - start"] oynaganSumma_small [of "now - start" p]
    oynaganSumma_nonneg [of "now - start" p]
  by (simp add: settle_vip reportOverlay_def)

theorem vip_accrued_multiple_of_1000_witness:
  "(0::int) \<le> 5400000 \<and> (0::rat) < 15000 \<and>
   \<bar>rat_of_int (5400000 - 0) / 3600000 * 15000\<bar> \<le> 2 ^ 52 \<and>
   \<bar>oynaganSumma 15000 (5400000 - 0)\<bar> < 2 ^ 53 \<and>
   (\<exists>k. oynaganSumma 15000 (5400000 - 0) = rat_of_int k * 1000) \<and>
   oynaganSumma 15000 (5400000 - 0) = 23000 \<and> 0 \<le> oynaganSumma 15000 (5400000 - 0) \<and>
   status lookalikeOrder = ''process'' \<and> otype lookalikeOrder = ''vip'' \<and>
   startTime lookalikeOrder = 0 \<and> PRICE_PER_HOUR exampleConfig = 15000 \<and>
   summa (r_order (settle exampleConfig 5400000 lookalikeOrder)) = 23000 \<and>
   summa (fst (reportOverlay exampleConfig 5400000 lookalikeOrder)) = 23000"
proof -
  have h: "status lookalikeOrder = ''process''" "otype lookalikeOrder = ''vip''"
    "startTime lookalikeOrder = 0" "PRICE_PER_HOUR exampleConfig = 15000"
    by (simp_all add: lookalikeOrder_def exampleConfig_def)
  have v: "oynaganSumma 15000 (5400000 - 0) = 23000"
    by (simp add: oynaganSumma_examples)
  have b: "\<bar>rat_of_int (5400000 - 0) / 3600000 * 15000\<bar> \<le> 2 ^ 52"
    by simp
  note t = vip_accrued_multiple_of_1000 [of 15000 5400000 0 lookalikeOrder exampleConfig]
  from t b have s: "\<bar>oynaganSumma 15000 (5400000 - 0)\<bar> < 2 ^ 53"
    by blast
  with t have m: "\<exists>k. oynaganSumma 15000 (5400000 - 0) = rat_of_int k * 1000"
    by simp
  from t h have "0 \<le> oynaganSumma 15000 (5400000 - 0) \<and>
      summa (r_order (settle exampleConfig 5400000 lookalikeOrder))
        = oynaganSumma 15000 (5400000 - 0) \<and>
      summa (fst (reportOverlay exampleConfig 5400000 lookalikeOrder))
        = oynaganSumma 15000 (5400000 - 0)"
    by simp
  with v have r: "0 \<le> oynaganSumma 15000 (5400000 - 0) \<and>
      summa (r_order (settle exampleConfig 5400000 lookalikeOrder)) = 23000 \<and>
      summa (fst (reportOverlay exampleConfig 5400000 lookalikeOrder)) = 23000"
    by simp
  from h v b s m r show ?thesis by simp
qed

text \<open>
  C3 as stated fails, in two ways. A vip order whose \<open>startTime\<close> is one hour after \<open>now\<close>
  accrues \<open>-15000\<close> at 15000 per hour. At a price of 50000000000000000 per hour an
  order completed 7200001 ms after its start accrues 100000013888888992, which is not a
  multiple of 1000: the last product, 100000013888889 times 1000, has more than 53
  bits and is rounded.
\<close>

theorem vip_accrued_counterexample:
  "oynaganSumma 15000 (0 - 3600000) = - 15000 \<and>
   \<not> (0 \<le> oynaganSumma 15000 (0 - 3600000)) \<and>
   (0::int) \<le> 7200001 - 0 \<and> (0::rat) < 50000000000000000 \<and>
   oynaganSumma 50000000000000000 (7200001 - 0) = 100000013888888992 \<and>
   (100000013888888992::int) mod 1000 = 992"
  by (simp add: oynaganSumma_examples oynaganSumma_17)

end
